theory Spec2Isabelle
  imports Complex_Main
begin

section \<open>Type definitions (types.ts)\<close>

text \<open>
  JavaScript numbers that hold counters, coordinates, hit points and millisecond
  timestamps are modelled as unbounded integers. The two formulas that use fractional
  constants (\<open>getCooldown\<close>, \<open>xpForLevel\<close>) are computed over the reals, the exact
  counterpart of the double-precision arithmetic of the source.
\<close>

definition MAP_WIDTH :: int where "MAP_WIDTH = 50"
definition MAP_HEIGHT :: int where "MAP_HEIGHT = 50"
definition MAX_AGENTS :: nat where "MAX_AGENTS = 100"

datatype Terrain = OPEN | WALL | WATER | MOUNTAIN

datatype ResourceType = ENERGY_CRYSTAL | METAL_ORE | BIOMASS | ARTIFACT

datatype SkillType = MIGHT | FORTITUDE | AGILITY | PERCEPTION | HARVESTING

record SkillSet =
  might :: int
  fortitude :: int
  agility :: int
  perception :: int
  harvesting :: int

text \<open>The keys of \<open>BASE_COOLDOWNS\<close> and of \<open>CooldownState\<close>.\<close>

datatype Action = Move | Attack | Gather | Communicate | Use_skill

fun BASE_COOLDOWNS :: "Action \<Rightarrow> int" where
  "BASE_COOLDOWNS Move = 1000"
| "BASE_COOLDOWNS Attack = 3000"
| "BASE_COOLDOWNS Gather = 2000"
| "BASE_COOLDOWNS Communicate = 500"
| "BASE_COOLDOWNS Use_skill = 5000"

record CooldownState =
  cd_move :: int
  cd_attack :: int
  cd_gather :: int
  cd_communicate :: int
  cd_use_skill :: int

record Inventory =
  energy_crystal :: int
  metal_ore :: int
  biomass :: int
  artifact :: int

record Agent =
  a_id :: string
  a_name :: string
  a_x :: int
  a_y :: int
  a_hp :: int
  a_max_hp :: int
  a_attack :: int
  a_defense :: int
  a_level :: int
  a_xp :: int
  a_xp_to_next :: int
  a_skill_points :: int
  a_skills :: SkillSet
  a_kills :: int
  a_deaths :: int
  a_alive :: bool
  a_respawn_at :: "int option"
  a_cooldowns :: CooldownState
  a_inventory :: Inventory
  a_created_at :: int
  a_last_action_at :: int
  a_session_id :: "string option"
  a_secret_hash :: "string option"

record MapResource =
  r_id :: string
  r_type :: ResourceType
  r_x :: int
  r_y :: int
  r_amount :: int
  r_spawned_at :: int

datatype EventType =
    AGENT_REGISTERED | AGENT_MOVED | AGENT_ATTACKED | AGENT_KILLED | AGENT_RESPAWNED
  | AGENT_GATHERED | AGENT_LEVELED_UP | AGENT_COMMUNICATED | AGENT_USED_SKILL
  | RESOURCE_SPAWNED | AGENT_DISCONNECTED

text \<open>The free-form payload of an event: a list of named values.\<close>

datatype Json = JStr string | JNum int | JBool bool | JStrs "string list"

text \<open>
  A \<open>GameEvent\<close>. Its \<open>id\<close> is a fresh UUID that no function of the engine reads; it
  is left out of the model.
\<close>

record GameEvent =
  e_type :: EventType
  e_agent_id :: "string option"
  e_target_id :: "string option"
  e_data :: "(string \<times> Json) list"
  e_timestamp :: int

subsection \<open>Leveling and formulas\<close>

text \<open>\<open>xpForLevel(level) = Math.floor(100 * Math.pow(1.5, level - 1))\<close>.\<close>

definition xpForLevel :: "int \<Rightarrow> int" where
  "xpForLevel lvl = \<lfloor>100 * (1.5::real) powi (lvl - 1)\<rfloor>"

text \<open>
  \<open>calculateDamage\<close>; \<open>roll\<close> stands for \<open>Math.floor(Math.random() * 4)\<close>, a value in
  \<open>0..3\<close> that the caller supplies.
\<close>

definition calculateDamage :: "int \<Rightarrow> Agent \<Rightarrow> Agent \<Rightarrow> int" where
  "calculateDamage roll attacker defender =
     (let baseDmg = 5 + a_attack attacker + might (a_skills attacker) * 3;
          def = a_defense defender + fortitude (a_skills defender) * 2
      in max 1 (baseDmg - def + roll - 2))"

text \<open>\<open>getCooldown\<close>: 8% less per agility level, capped at a 50% reduction.\<close>

definition getCooldown :: "Action \<Rightarrow> Agent \<Rightarrow> int" where
  "getCooldown action agent =
     (let base = real_of_int (BASE_COOLDOWNS action);
          agilityReduction = real_of_int (agility (a_skills agent)) * 0.08
      in \<lfloor>base * (1 - min agilityReduction 0.5)\<rfloor>)"

definition getVisionRange :: "Agent \<Rightarrow> int" where
  "getVisionRange agent = 5 + perception (a_skills agent) * 2"

definition getGatherBonus :: "Agent \<Rightarrow> int" where
  "getGatherBonus agent = 1 + harvesting (a_skills agent)"

definition isInSafeHaven :: "int \<Rightarrow> int \<Rightarrow> bool" where
  "isInSafeHaven x y \<longleftrightarrow> 21 \<le> x \<and> x \<le> 29 \<and> 21 \<le> y \<and> y \<le> 29"

definition RESPAWN_TIME_MS :: int where "RESPAWN_TIME_MS = 10000"
definition MAX_RESOURCES_ON_MAP :: nat where "MAX_RESOURCES_ON_MAP = 80"
definition MIN_RESOURCES_ON_MAP :: nat where "MIN_RESOURCES_ON_MAP = 20"
definition RESOURCE_BURST_COUNT :: nat where "RESOURCE_BURST_COUNT = 8"

definition RESOURCE_SPAWN_INTERVAL_MS :: int where "RESOURCE_SPAWN_INTERVAL_MS = 5000"

fun RESOURCE_SPAWN_WEIGHTS :: "ResourceType \<Rightarrow> real" where
  "RESOURCE_SPAWN_WEIGHTS ENERGY_CRYSTAL = 40"
| "RESOURCE_SPAWN_WEIGHTS METAL_ORE = 30"
| "RESOURCE_SPAWN_WEIGHTS BIOMASS = 25"
| "RESOURCE_SPAWN_WEIGHTS ARTIFACT = 5"

definition XP_kill :: int where "XP_kill = 50"
definition XP_attack_hit :: int where "XP_attack_hit = 5"

text \<open>\<open>XP_REWARDS[`gather_${resource.type}`]\<close>.\<close>

fun XP_gather :: "ResourceType \<Rightarrow> int" where
  "XP_gather ENERGY_CRYSTAL = 15"
| "XP_gather METAL_ORE = 5"
| "XP_gather BIOMASS = 5"
| "XP_gather ARTIFACT = 40"

text \<open>
  The result of \<open>DIRECTIONS[key]\<close>: one of the eight vectors, \<open>undefined\<close> for an unknown
  key, or, for the two lower-case keys that a plain object inherits from its prototype
  (\<open>constructor\<close>, \<open>__proto__\<close>), a truthy value that the destructuring
  \<open>const [dx, dy] = dir\<close> cannot iterate.
\<close>

datatype DirLookup = Vec int int | Undefined | NotIterable

definition DIRECTIONS :: "string \<Rightarrow> DirLookup" where
  "DIRECTIONS k =
     (if k = ''north'' then Vec 0 (-1)
      else if k = ''south'' then Vec 0 1
      else if k = ''east'' then Vec 1 0
      else if k = ''west'' then Vec (-1) 0
      else if k = ''northeast'' then Vec 1 (-1)
      else if k = ''northwest'' then Vec (-1) (-1)
      else if k = ''southeast'' then Vec 1 1
      else if k = ''southwest'' then Vec (-1) 1
      else if k = ''constructor'' \<or> k = ''__proto__'' then NotIterable
      else Undefined)"

text \<open>\<open>String.prototype.toLowerCase\<close> on the ASCII letters.\<close>

definition lowerChar :: "char \<Rightarrow> char" where
  "lowerChar c = (let n = (of_char c :: nat) in if 65 \<le> n \<and> n \<le> 90 then char_of (n + 32) else c)"

definition toLowerCase :: "string \<Rightarrow> string" where
  "toLowerCase s = map lowerChar s"

text \<open>JavaScript truthiness of a \<open>string | null\<close> (or optional string) value.\<close>

fun truthy :: "string option \<Rightarrow> bool" where
  "truthy None = False"
| "truthy (Some s) = (s \<noteq> [])"

section \<open>Persistence (database.ts)\<close>

text \<open>The three tables, each in insertion (rowid) order.\<close>

record World =
  agents :: "Agent list"
  resources :: "MapResource list"
  events :: "GameEvent list"

definition DEFAULT_SKILLS :: SkillSet where
  "DEFAULT_SKILLS = \<lparr>might = 0, fortitude = 0, agility = 0, perception = 0, harvesting = 0\<rparr>"

definition DEFAULT_COOLDOWNS :: CooldownState where
  "DEFAULT_COOLDOWNS = \<lparr>cd_move = 0, cd_attack = 0, cd_gather = 0, cd_communicate = 0, cd_use_skill = 0\<rparr>"

definition DEFAULT_INVENTORY :: Inventory where
  "DEFAULT_INVENTORY = \<lparr>energy_crystal = 0, metal_ore = 0, biomass = 0, artifact = 0\<rparr>"

text \<open>
  What a call can fail with: the structured rejections \<open>{ ok: false, error }\<close> of the
  engine, one constructor per message, and the two exceptions that escape it.
\<close>

datatype error =
    NameLength | NameChars | SecretRequired | IncorrectSecret | NameInUse | ArenaFull
  | AgentNotFound | DeadRespawning | Dead | OnCooldown Action int | InvalidDirection | Blocked
  | TileOccupied string | NoAgentInDirection | AttackerInSafeHaven | TargetInSafeHaven
  | NoResourceHere | MessageLength | NoSkillPoints | InvalidSkill | RequiresMight3
  | InvalidDirectionShort | NoTargetInDirection | RequiresPerception2 | UnknownSkill
  | BoundToOtherSession | ReconnectSecretRequired | ReconnectIncorrectSecret
  | NameTaken
  | ThrownTypeError | ThrownSqliteConstraint

text \<open>
  \<open>INSERT INTO agents\<close>: \<open>id\<close> is the primary key and \<open>name\<close> is \<open>UNIQUE\<close>, so the
  statement throws when either is already present.
\<close>

definition insertAgent :: "Agent \<Rightarrow> World \<Rightarrow> error + World" where
  "insertAgent agent w =
     (if \<exists>r \<in> set (agents w). a_id r = a_id agent \<or> a_name r = a_name agent
      then Inl ThrownSqliteConstraint
      else Inr (w\<lparr>agents := agents w @ [agent]\<rparr>))"

text \<open>
  \<open>UPDATE agents SET ... WHERE id = ?\<close>: every column but \<open>id\<close>, \<open>name\<close>,
  \<open>created_at\<close> and \<open>secret_hash\<close> is written.
\<close>

definition updateRow :: "Agent \<Rightarrow> Agent \<Rightarrow> Agent" where
  "updateRow agent r =
     (if a_id r = a_id agent
      then agent\<lparr>a_name := a_name r, a_created_at := a_created_at r,
                 a_secret_hash := a_secret_hash r\<rparr>
      else r)"

definition updateAgent :: "Agent \<Rightarrow> World \<Rightarrow> World" where
  "updateAgent agent w = w\<lparr>agents := map (updateRow agent) (agents w)\<rparr>"

definition getAgentById :: "World \<Rightarrow> string \<Rightarrow> Agent option" where
  "getAgentById w i = find (\<lambda>a. a_id a = i) (agents w)"

definition getAgentByName :: "World \<Rightarrow> string \<Rightarrow> Agent option" where
  "getAgentByName w n = find (\<lambda>a. a_name a = n) (agents w)"

definition getAgentBySession :: "World \<Rightarrow> string \<Rightarrow> Agent option" where
  "getAgentBySession w sid = find (\<lambda>a. a_session_id a = Some sid) (agents w)"

definition getAllAgents :: "World \<Rightarrow> Agent list" where
  "getAllAgents w = agents w"

definition getAliveAgents :: "World \<Rightarrow> Agent list" where
  "getAliveAgents w = filter a_alive (agents w)"

definition getAgentAt :: "World \<Rightarrow> int \<Rightarrow> int \<Rightarrow> Agent option" where
  "getAgentAt w x y = find (\<lambda>a. a_x a = x \<and> a_y a = y \<and> a_alive a) (agents w)"

definition getAgentCount :: "World \<Rightarrow> nat" where
  "getAgentCount w = length (agents w)"

definition insertResource :: "MapResource \<Rightarrow> World \<Rightarrow> error + World" where
  "insertResource res w =
     (if \<exists>r \<in> set (resources w). r_id r = r_id res then Inl ThrownSqliteConstraint
      else Inr (w\<lparr>resources := resources w @ [res]\<rparr>))"

definition deleteResource :: "string \<Rightarrow> World \<Rightarrow> World" where
  "deleteResource i w = w\<lparr>resources := filter (\<lambda>r. r_id r \<noteq> i) (resources w)\<rparr>"

definition getResourceAt :: "World \<Rightarrow> int \<Rightarrow> int \<Rightarrow> MapResource option" where
  "getResourceAt w x y = find (\<lambda>r. r_x r = x \<and> r_y r = y) (resources w)"

definition getResourceCount :: "World \<Rightarrow> nat" where
  "getResourceCount w = length (resources w)"

definition insertEvent :: "GameEvent \<Rightarrow> World \<Rightarrow> World" where
  "insertEvent ev w = w\<lparr>events := events w @ [ev]\<rparr>"

section \<open>Game engine (game-engine.ts)\<close>

subsection \<open>Map\<close>

text \<open>
  The terrain array is written once by \<open>initGame\<close> and only read afterwards; the
  functions that read it take it as their first argument, \<open>terr y x\<close> being
  \<open>terrain[y][x]\<close>. Only cells inside the \<open>50 \<times> 50\<close> grid are ever read.
  \<open>generateMap\<close> draws one \<open>Math.random()\<close> per interior cell outside the safe haven;
  \<open>r y x\<close> is that draw.
\<close>

definition generateMap :: "(int \<Rightarrow> int \<Rightarrow> real) \<Rightarrow> int \<Rightarrow> int \<Rightarrow> Terrain" where
  "generateMap r y x =
     (if x = 0 \<or> y = 0 \<or> x = MAP_WIDTH - 1 \<or> y = MAP_HEIGHT - 1 then WALL
      else if isInSafeHaven x y then OPEN
      else if r y x < 0.05 then WALL
      else if r y x < 0.08 then WATER
      else if r y x < 0.09 then MOUNTAIN
      else OPEN)"

definition isPassable :: "(int \<Rightarrow> int \<Rightarrow> Terrain) \<Rightarrow> int \<Rightarrow> int \<Rightarrow> bool" where
  "isPassable terr x y =
     (if x < 0 \<or> x \<ge> MAP_WIDTH \<or> y < 0 \<or> y \<ge> MAP_HEIGHT then False
      else (let t = terr y x in t = OPEN \<or> t = WATER))"

text \<open>
  The random cell of attempt \<open>i\<close> of \<open>findSpawnPoint\<close>:
  \<open>2 + Math.floor(Math.random() * (MAP_WIDTH - 4))\<close> in each coordinate. The pair
  \<open>rnd i\<close> stands for the two floored draws; reducing it modulo 46 keeps every
  stream inside the range \<open>0..45\<close> of the source.
\<close>

definition spawnCandidate :: "(nat \<Rightarrow> nat \<times> nat) \<Rightarrow> nat \<Rightarrow> int \<times> int" where
  "spawnCandidate rnd i = (2 + int (fst (rnd i) mod 46), 2 + int (snd (rnd i) mod 46))"

text \<open>The cells of the fallback scan, rows \<open>y = 1..48\<close> outermost.\<close>

definition scanCells :: "(int \<times> int) list" where
  "scanCells = concat (map (\<lambda>y. map (\<lambda>x. (x, y)) [1..MAP_WIDTH - 2]) [1..MAP_HEIGHT - 2])"

definition findSpawnPoint :: "(int \<Rightarrow> int \<Rightarrow> Terrain) \<Rightarrow> (nat \<Rightarrow> nat \<times> nat) \<Rightarrow> World \<Rightarrow> int \<times> int" where
  "findSpawnPoint terr rnd w =
     (case find (\<lambda>(x, y). isPassable terr x y \<and> getAgentAt w x y = None \<and> getResourceAt w x y = None)
             (map (spawnCandidate rnd) [0..<500]) of
        Some p \<Rightarrow> p
      | None \<Rightarrow>
          (case find (\<lambda>(x, y). isPassable terr x y \<and> getAgentAt w x y = None) scanCells of
             Some p \<Rightarrow> p
           | None \<Rightarrow> (MAP_WIDTH div 2, MAP_HEIGHT div 2)))"

subsection \<open>Events\<close>

text \<open>
  \<open>emitEvent\<close> stores the event and hands it to the spectator callbacks, whose failures
  are swallowed; only the stored log is part of the state. \<open>now\<close> is \<open>Date.now()\<close>,
  taken as constant during one call of the engine.
\<close>

definition emitEvent :: "GameEvent \<Rightarrow> World \<Rightarrow> World" where
  "emitEvent ev w = insertEvent ev w"

definition makeEvent :: "int \<Rightarrow> EventType \<Rightarrow> string option \<Rightarrow> string option \<Rightarrow> (string \<times> Json) list \<Rightarrow> GameEvent" where
  "makeEvent now ty agentId targetId dat =
     \<lparr>e_type = ty, e_agent_id = agentId, e_target_id = targetId, e_data = dat, e_timestamp = now\<rparr>"

subsection \<open>Cooldowns and experience\<close>

fun readyAt :: "Action \<Rightarrow> CooldownState \<Rightarrow> int" where
  "readyAt Move c = cd_move c"
| "readyAt Attack c = cd_attack c"
| "readyAt Gather c = cd_gather c"
| "readyAt Communicate c = cd_communicate c"
| "readyAt Use_skill c = cd_use_skill c"

fun setReadyAt :: "Action \<Rightarrow> int \<Rightarrow> CooldownState \<Rightarrow> CooldownState" where
  "setReadyAt Move t c = c\<lparr>cd_move := t\<rparr>"
| "setReadyAt Attack t c = c\<lparr>cd_attack := t\<rparr>"
| "setReadyAt Gather t c = c\<lparr>cd_gather := t\<rparr>"
| "setReadyAt Communicate t c = c\<lparr>cd_communicate := t\<rparr>"
| "setReadyAt Use_skill t c = c\<lparr>cd_use_skill := t\<rparr>"

definition checkCooldown :: "int \<Rightarrow> Agent \<Rightarrow> Action \<Rightarrow> error option" where
  "checkCooldown now agent action =
     (let ready = readyAt action (a_cooldowns agent)
      in if ready > now then Some (OnCooldown action \<lceil>real_of_int (ready - now) / 1000\<rceil>)
         else None)"

definition applyCooldown :: "int \<Rightarrow> Agent \<Rightarrow> Action \<Rightarrow> Agent" where
  "applyCooldown now agent action =
     agent\<lparr>a_cooldowns := setReadyAt action (now + getCooldown action agent) (a_cooldowns agent),
           a_last_action_at := now\<rparr>"

text \<open>One pass through the body of the \<open>while\<close> loop of \<open>addXp\<close>, without the event.\<close>

definition levelUp :: "Agent \<Rightarrow> Agent" where
  "levelUp agent =
     (let a1 = agent\<lparr>a_xp := a_xp agent - a_xp_to_next agent\<rparr>;
          a2 = a1\<lparr>a_level := a_level a1 + 1\<rparr>;
          a3 = a2\<lparr>a_skill_points := a_skill_points a2 + 1\<rparr>;
          a4 = a3\<lparr>a_max_hp := a_max_hp a3 + 5\<rparr>;
          a5 = a4\<lparr>a_hp := a_max_hp a4\<rparr>
      in a5\<lparr>a_xp_to_next := xpForLevel (a_level a5)\<rparr>)"

definition levelUpEvent :: "int \<Rightarrow> Agent \<Rightarrow> GameEvent" where
  "levelUpEvent now agent =
     makeEvent now AGENT_LEVELED_UP (Some (a_id agent)) None
       [(''level'', JNum (a_level agent)), (''name'', JStr (a_name agent))]"

text \<open>
  The \<open>while (agent.xp >= agent.xp_to_next)\<close> loop of \<open>addXp\<close>; it returns the agent
  and the level-up events it emitted, oldest first.
\<close>

function addXpLoop :: "int \<Rightarrow> Agent \<Rightarrow> Agent \<times> GameEvent list" where
  "addXpLoop now agent =
     (if a_xp agent \<ge> a_xp_to_next agent
      then (case addXpLoop now (levelUp agent) of
              (agent', evs) \<Rightarrow> (agent', levelUpEvent now (levelUp agent) # evs))
      else (agent, []))"
  by pat_completeness auto
termination
proof (relation "(\<lambda>(now, a). if a_xp a < a_xp_to_next a then 0 else 1 + nat (a_xp a - a_xp_to_next a))
                   <*mlex*> measure (\<lambda>(now, a). nat (- a_level a))")
  show "wf ((\<lambda>(now, a). if a_xp a < a_xp_to_next a then 0 else 1 + nat (a_xp a - a_xp_to_next a))
                   <*mlex*> measure (\<lambda>(now, a). nat (- a_level a)))"
    by (simp add: wf_mlex)
next
  fix now :: int and agent :: Agent
  assume c: "a_xp_to_next agent \<le> a_xp agent"
  let ?X = "xpForLevel (a_level agent + 1)"
  have nn: "0 \<le> ?X"
    unfolding xpForLevel_def by (simp add: zero_le_power_int)
  have pos: "0 < ?X" if h: "0 \<le> a_level agent + 1"
  proof -
    have "(1::real) \<le> 100 * 1.5 powi (a_level agent + 1 - 1)"
    proof (cases "1 \<le> a_level agent + 1")
      case True
      then have "(1::real) \<le> 1.5 powi (a_level agent + 1 - 1)" by (simp add: one_le_power_int)
      then show ?thesis by linarith
    next
      case False
      with h have "a_level agent + 1 = 0" by simp
      then show ?thesis by (simp add: power_int_minus)
    qed
    then have "1 \<le> ?X" unfolding xpForLevel_def by (simp add: le_floor_iff)
    then show ?thesis by simp
  qed
  have lx: "a_xp (levelUp agent) = a_xp agent - a_xp_to_next agent"
    and lt: "a_xp_to_next (levelUp agent) = ?X"
    and ll: "a_level (levelUp agent) = a_level agent + 1"
    by (simp_all add: levelUp_def Let_def)
  show "((now, levelUp agent), (now, agent)) \<in>
     (\<lambda>(now, a). if a_xp a < a_xp_to_next a then 0 else 1 + nat (a_xp a - a_xp_to_next a))
                   <*mlex*> measure (\<lambda>(now, a). nat (- a_level a))"
  proof (cases "?X = 0")
    case True
    then have "a_level agent + 1 < 0" using pos by force
    with True c lx lt ll show ?thesis
      by (auto intro!: mlex_leq)
  next
    case False
    with nn have "0 < ?X" by simp
    with c lx lt ll show ?thesis
      by (auto intro!: mlex_less)
  qed
qed

declare addXpLoop.simps [simp del]

text \<open>
  \<open>addXp\<close>: the agent after the grant, the events emitted, and the returned flag
  \<open>leveledUp\<close>, which is set exactly when the loop body ran.
\<close>

definition addXp :: "int \<Rightarrow> Agent \<Rightarrow> int \<Rightarrow> Agent \<times> GameEvent list \<times> bool" where
  "addXp now agent amount =
     (let a0 = agent\<lparr>a_xp := a_xp agent + amount\<rparr>
      in case addXpLoop now a0 of
           (agent', evs) \<Rightarrow> (agent', evs, a_xp a0 \<ge> a_xp_to_next a0))"

text \<open>Several \<open>emitEvent\<close> calls in a row.\<close>

definition emitEvents :: "GameEvent list \<Rightarrow> World \<Rightarrow> World" where
  "emitEvents evs w = fold emitEvent evs w"

subsection \<open>Public game API\<close>

text \<open>The character class of \<open>/^[a-zA-Z0-9_-]+$/\<close>.\<close>

definition nameChar :: "char \<Rightarrow> bool" where
  "nameChar c =
     (let n = (of_char c :: nat)
      in (97 \<le> n \<and> n \<le> 122) \<or> (65 \<le> n \<and> n \<le> 90) \<or> (48 \<le> n \<and> n \<le> 57)
         \<or> c = CHR ''_'' \<or> c = CHR ''-'')"

text \<open>
  \<open>register\<close>. \<open>hashSecret\<close> is the SHA-256 hex digest, \<open>uuid\<close> the fresh identifier
  drawn for a new agent, \<open>rnd\<close> the random cells of \<open>findSpawnPoint\<close>. A success
  carries the agent and the \<open>reconnected\<close> flag (absent in the source when false).
\<close>

definition register ::
  "(int \<Rightarrow> int \<Rightarrow> Terrain) \<Rightarrow> (string \<Rightarrow> string) \<Rightarrow> int \<Rightarrow> string \<Rightarrow> (nat \<Rightarrow> nat \<times> nat) \<Rightarrow>
   string \<Rightarrow> string \<Rightarrow> string option \<Rightarrow> World \<Rightarrow> World \<times> (error + Agent \<times> bool)" where
  "register terr hashSecret now uuid rnd sessionId name secret w =
     (if name = [] \<or> length name < 2 \<or> length name > 20 then (w, Inl NameLength)
      else if \<not> list_all nameChar name then (w, Inl NameChars)
      else case getAgentBySession w sessionId of
        Some existing \<Rightarrow> (w, Inr (existing, False))
      | None \<Rightarrow>
         (case getAgentByName w name of
            Some byName \<Rightarrow>
              if truthy (a_secret_hash byName) \<and> \<not> truthy secret
                then (w, Inl SecretRequired)
              else if truthy (a_secret_hash byName) \<and> map_option hashSecret secret \<noteq> a_secret_hash byName
                then (w, Inl IncorrectSecret)
              else if truthy (a_session_id byName) then (w, Inl NameInUse)
              else
                (let byName' = byName\<lparr>a_session_id := Some sessionId, a_last_action_at := now\<rparr>
                 in (updateAgent byName' w, Inr (byName', True)))
          | None \<Rightarrow>
              if getAgentCount w \<ge> MAX_AGENTS then (w, Inl ArenaFull)
              else
                (let (x, y) = findSpawnPoint terr rnd w;
                     agent = \<lparr>a_id = uuid, a_name = name, a_x = x, a_y = y, a_hp = 50, a_max_hp = 50,
                              a_attack = 0, a_defense = 0, a_level = 1, a_xp = 0, a_xp_to_next = 100,
                              a_skill_points = 0, a_skills = DEFAULT_SKILLS, a_kills = 0, a_deaths = 0,
                              a_alive = True, a_respawn_at = None, a_cooldowns = DEFAULT_COOLDOWNS,
                              a_inventory = DEFAULT_INVENTORY, a_created_at = now,
                              a_last_action_at = now, a_session_id = Some sessionId,
                              a_secret_hash = (if truthy secret then map_option hashSecret secret else None)\<rparr>
                 in case insertAgent agent w of
                      Inl e \<Rightarrow> (w, Inl e)
                    | Inr w' \<Rightarrow>
                        (emitEvent (makeEvent now AGENT_REGISTERED (Some (a_id agent)) None
                                      [(''name'', JStr name), (''x'', JNum x), (''y'', JNum y)]) w',
                         Inr (agent, False)))))"

text \<open>\<open>move\<close>; a success carries the new cell, its terrain and \<open>in_safe_haven\<close>.\<close>

definition move ::
  "(int \<Rightarrow> int \<Rightarrow> Terrain) \<Rightarrow> int \<Rightarrow> string \<Rightarrow> string \<Rightarrow> World \<Rightarrow>
   World \<times> (error + int \<times> int \<times> Terrain \<times> bool)" where
  "move terr now agentId direction w =
     (case getAgentById w agentId of
        None \<Rightarrow> (w, Inl AgentNotFound)
      | Some agent \<Rightarrow>
          if \<not> a_alive agent then (w, Inl DeadRespawning)
          else case checkCooldown now agent Move of
            Some cdErr \<Rightarrow> (w, Inl cdErr)
          | None \<Rightarrow>
             (case DIRECTIONS (toLowerCase direction) of
                Undefined \<Rightarrow> (w, Inl InvalidDirection)
              | NotIterable \<Rightarrow> (w, Inl ThrownTypeError)
              | Vec dx dy \<Rightarrow>
                 (let nx = a_x agent + dx; ny = a_y agent + dy
                  in if \<not> isPassable terr nx ny then (w, Inl Blocked)
                     else case getAgentAt w nx ny of
                       Some occupant \<Rightarrow> (w, Inl (TileOccupied (a_name occupant)))
                     | None \<Rightarrow>
                        (let a1 = agent\<lparr>a_x := nx, a_y := ny\<rparr>;
                             a2 = (if terr ny nx = WATER
                                   then a1\<lparr>a_cooldowns := (a_cooldowns a1)
                                            \<lparr>cd_move := now + getCooldown Move a1 * 2\<rparr>\<rparr>
                                   else applyCooldown now a1 Move);
                             w1 = updateAgent a2 w;
                             w2 = emitEvent (makeEvent now AGENT_MOVED (Some (a_id a2)) None
                                    [(''name'', JStr (a_name a2)), (''x'', JNum nx), (''y'', JNum ny),
                                     (''direction'', JStr direction)]) w1
                         in (w2, Inr (nx, ny, terr ny nx, isInSafeHaven nx ny))))))"

text \<open>
  \<open>attack\<close>; \<open>roll\<close> is the random draw of \<open>calculateDamage\<close>. A success carries the
  target's name, the damage, the target's remaining hit points and \<open>killed\<close>.
\<close>

definition attack ::
  "int \<Rightarrow> int \<Rightarrow> string \<Rightarrow> string \<Rightarrow> World \<Rightarrow> World \<times> (error + string \<times> int \<times> int \<times> bool)" where
  "attack now roll agentId direction w =
     (case getAgentById w agentId of
        None \<Rightarrow> (w, Inl AgentNotFound)
      | Some agent \<Rightarrow>
          if \<not> a_alive agent then (w, Inl DeadRespawning)
          else case checkCooldown now agent Attack of
            Some cdErr \<Rightarrow> (w, Inl cdErr)
          | None \<Rightarrow>
             (case DIRECTIONS (toLowerCase direction) of
                Undefined \<Rightarrow> (w, Inl InvalidDirection)
              | NotIterable \<Rightarrow> (w, Inl ThrownTypeError)
              | Vec dx dy \<Rightarrow>
                 (let tx = a_x agent + dx; ty = a_y agent + dy
                  in case getAgentAt w tx ty of
                       None \<Rightarrow> (w, Inl NoAgentInDirection)
                     | Some target \<Rightarrow>
                         if isInSafeHaven (a_x agent) (a_y agent) then (w, Inl AttackerInSafeHaven)
                         else if isInSafeHaven tx ty then (w, Inl TargetInSafeHaven)
                         else
                          (let damage = calculateDamage roll agent target;
                               t1 = target\<lparr>a_hp := a_hp target - damage\<rparr>;
                               a1 = applyCooldown now agent Attack;
                               (a2, evs1, _) = addXp now a1 XP_attack_hit;
                               w1 = emitEvents evs1 w
                           in if a_hp t1 \<le> 0 then
                                (let t2 = t1\<lparr>a_hp := 0, a_alive := False, a_deaths := a_deaths t1 + 1,
                                             a_respawn_at := Some (now + RESPAWN_TIME_MS)\<rparr>;
                                     a3 = a2\<lparr>a_kills := a_kills a2 + 1\<rparr>;
                                     (a4, evs2, _) = addXp now a3 XP_kill;
                                     w2 = emitEvent (makeEvent now AGENT_KILLED (Some (a_id a4)) (Some (a_id t2))
                                            [(''killer'', JStr (a_name a4)), (''victim'', JStr (a_name t2)),
                                             (''killer_level'', JNum (a_level a4)),
                                             (''victim_level'', JNum (a_level t2))]) (emitEvents evs2 w1)
                                 in (updateAgent t2 (updateAgent a4 w2),
                                     Inr (a_name t2, damage, a_hp t2, True)))
                              else
                                (let w2 = emitEvent (makeEvent now AGENT_ATTACKED (Some (a_id a2)) (Some (a_id t1))
                                            [(''attacker'', JStr (a_name a2)), (''target'', JStr (a_name t1)),
                                             (''damage'', JNum damage), (''target_hp'', JNum (a_hp t1)),
                                             (''target_max_hp'', JNum (a_max_hp t1))]) w1
                                 in (updateAgent t1 (updateAgent a2 w2),
                                     Inr (a_name t1, damage, a_hp t1, False)))))))"

text \<open>The string value of a \<open>ResourceType\<close>.\<close>

fun resourceName :: "ResourceType \<Rightarrow> string" where
  "resourceName ENERGY_CRYSTAL = ''energy_crystal''"
| "resourceName METAL_ORE = ''metal_ore''"
| "resourceName BIOMASS = ''biomass''"
| "resourceName ARTIFACT = ''artifact''"

text \<open>\<open>agent.inventory[resource.type] += amount\<close>.\<close>

fun addInventory :: "ResourceType \<Rightarrow> int \<Rightarrow> Inventory \<Rightarrow> Inventory" where
  "addInventory ENERGY_CRYSTAL n i = i\<lparr>energy_crystal := energy_crystal i + n\<rparr>"
| "addInventory METAL_ORE n i = i\<lparr>metal_ore := metal_ore i + n\<rparr>"
| "addInventory BIOMASS n i = i\<lparr>biomass := biomass i + n\<rparr>"
| "addInventory ARTIFACT n i = i\<lparr>artifact := artifact i + n\<rparr>"

text \<open>\<open>gather\<close>; a success carries the resource type, the amount and \<open>xp_gained\<close>.\<close>

definition gather ::
  "int \<Rightarrow> string \<Rightarrow> World \<Rightarrow> World \<times> (error + ResourceType \<times> int \<times> int)" where
  "gather now agentId w =
     (case getAgentById w agentId of
        None \<Rightarrow> (w, Inl AgentNotFound)
      | Some agent \<Rightarrow>
          if \<not> a_alive agent then (w, Inl DeadRespawning)
          else case checkCooldown now agent Gather of
            Some cdErr \<Rightarrow> (w, Inl cdErr)
          | None \<Rightarrow>
             (case getResourceAt w (a_x agent) (a_y agent) of
                None \<Rightarrow> (w, Inl NoResourceHere)
              | Some resource \<Rightarrow>
                 (let bonus = getGatherBonus agent;
                      amount = r_amount resource * bonus;
                      a1 = agent\<lparr>a_inventory := addInventory (r_type resource) amount (a_inventory agent)\<rparr>;
                      a2 = applyCooldown now a1 Gather;
                      xpGained = XP_gather (r_type resource) * bonus;
                      (a3, evs, _) = addXp now a2 xpGained;
                      w1 = emitEvents evs w;
                      w2 = deleteResource (r_id resource) w1;
                      w3 = updateAgent a3 w2;
                      w4 = emitEvent (makeEvent now AGENT_GATHERED (Some (a_id a3)) None
                             [(''name'', JStr (a_name a3)),
                              (''resource_type'', JStr (resourceName (r_type resource))),
                              (''amount'', JNum amount)]) w3
                  in (w4, Inr (r_type resource, amount, xpGained)))))"

text \<open>The other alive agents within \<open>rng\<close> of \<open>agent\<close> in both coordinates.\<close>

definition agentsWithin :: "World \<Rightarrow> Agent \<Rightarrow> int \<Rightarrow> Agent list" where
  "agentsWithin w agent rng =
     filter (\<lambda>a. a_id a \<noteq> a_id agent \<and> \<bar>a_x a - a_x agent\<bar> \<le> rng \<and> \<bar>a_y a - a_y agent\<bar> \<le> rng)
       (getAliveAgents w)"

text \<open>\<open>communicate\<close>; a success carries \<open>delivered_to\<close>.\<close>

definition communicate ::
  "int \<Rightarrow> string \<Rightarrow> string \<Rightarrow> World \<Rightarrow> World \<times> (error + string list)" where
  "communicate now agentId message w =
     (case getAgentById w agentId of
        None \<Rightarrow> (w, Inl AgentNotFound)
      | Some agent \<Rightarrow>
          if \<not> a_alive agent then (w, Inl DeadRespawning)
          else case checkCooldown now agent Communicate of
            Some cdErr \<Rightarrow> (w, Inl cdErr)
          | None \<Rightarrow>
              if message = [] \<or> length message > 200 then (w, Inl MessageLength)
              else
               (let rng = getVisionRange agent;
                    nearby = agentsWithin w agent rng;
                    a1 = applyCooldown now agent Communicate;
                    w1 = updateAgent a1 w;
                    w2 = emitEvent (makeEvent now AGENT_COMMUNICATED (Some (a_id a1)) None
                           [(''name'', JStr (a_name a1)), (''message'', JStr message),
                            (''delivered_to'', JStrs (map a_name nearby))]) w1
                in (w2, Inr (map a_name nearby))))"

text \<open>\<open>Object.values(SkillType).includes(skillKey)\<close>, with the skill it names.\<close>

definition parseSkill :: "string \<Rightarrow> SkillType option" where
  "parseSkill k =
     (if k = ''might'' then Some MIGHT
      else if k = ''fortitude'' then Some FORTITUDE
      else if k = ''agility'' then Some AGILITY
      else if k = ''perception'' then Some PERCEPTION
      else if k = ''harvesting'' then Some HARVESTING
      else None)"

fun skillLevel :: "SkillType \<Rightarrow> SkillSet \<Rightarrow> int" where
  "skillLevel MIGHT s = might s"
| "skillLevel FORTITUDE s = fortitude s"
| "skillLevel AGILITY s = agility s"
| "skillLevel PERCEPTION s = perception s"
| "skillLevel HARVESTING s = harvesting s"

fun incSkill :: "SkillType \<Rightarrow> SkillSet \<Rightarrow> SkillSet" where
  "incSkill MIGHT s = s\<lparr>might := might s + 1\<rparr>"
| "incSkill FORTITUDE s = s\<lparr>fortitude := fortitude s + 1\<rparr>"
| "incSkill AGILITY s = s\<lparr>agility := agility s + 1\<rparr>"
| "incSkill PERCEPTION s = s\<lparr>perception := perception s + 1\<rparr>"
| "incSkill HARVESTING s = s\<lparr>harvesting := harvesting s + 1\<rparr>"

text \<open>\<open>levelUpSkill\<close>; a success carries the skill, its new level and \<open>remaining_points\<close>.\<close>

definition levelUpSkill ::
  "string \<Rightarrow> string \<Rightarrow> World \<Rightarrow> World \<times> (error + SkillType \<times> int \<times> int)" where
  "levelUpSkill agentId skill w =
     (case getAgentById w agentId of
        None \<Rightarrow> (w, Inl AgentNotFound)
      | Some agent \<Rightarrow>
          if a_skill_points agent \<le> 0 then (w, Inl NoSkillPoints)
          else case parseSkill (toLowerCase skill) of
            None \<Rightarrow> (w, Inl InvalidSkill)
          | Some skillKey \<Rightarrow>
             (let a1 = agent\<lparr>a_skills := incSkill skillKey (a_skills agent)\<rparr>;
                  a2 = a1\<lparr>a_skill_points := a_skill_points a1 - 1\<rparr>;
                  a3 = (if skillKey = MIGHT then a2\<lparr>a_attack := a_attack a2 + 2\<rparr> else a2);
                  a4 = (if skillKey = FORTITUDE
                        then a3\<lparr>a_defense := a_defense a3 + 1, a_max_hp := a_max_hp a3 + 10,
                                a_hp := a_hp a3 + 10\<rparr>
                        else a3)
              in (updateAgent a4 w,
                  Inr (skillKey, skillLevel skillKey (a_skills a4), a_skill_points a4))))"

text \<open>What a successful \<open>useSkill\<close> reports in its result string.\<close>

datatype SkillResult =
    Healed int int int
  | PowerStrike int string bool int
  | Scouted int "(string \<times> int \<times> int \<times> int) list"

text \<open>\<open>useSkill\<close>; \<open>roll\<close> is the random draw of \<open>calculateDamage\<close>.\<close>

definition useSkill ::
  "int \<Rightarrow> int \<Rightarrow> string \<Rightarrow> string \<Rightarrow> string option \<Rightarrow> World \<Rightarrow> World \<times> (error + SkillResult)" where
  "useSkill now roll agentId skillName direction w =
     (case getAgentById w agentId of
        None \<Rightarrow> (w, Inl AgentNotFound)
      | Some agent \<Rightarrow>
          if \<not> a_alive agent then (w, Inl Dead)
          else case checkCooldown now agent Use_skill of
            Some cdErr \<Rightarrow> (w, Inl cdErr)
          | None \<Rightarrow>
             (let skill = toLowerCase skillName
              in if skill = ''heal'' \<and> biomass (a_inventory agent) > 0 then
                   (let healAmount = 10 + fortitude (a_skills agent) * 5;
                        a1 = agent\<lparr>a_hp := min (a_max_hp agent) (a_hp agent + healAmount)\<rparr>;
                        a2 = a1\<lparr>a_inventory := (a_inventory a1)\<lparr>biomass := biomass (a_inventory a1) - 1\<rparr>\<rparr>;
                        a3 = applyCooldown now a2 Use_skill;
                        w1 = updateAgent a3 w;
                        w2 = emitEvent (makeEvent now AGENT_USED_SKILL (Some (a_id a3)) None
                               [(''name'', JStr (a_name a3)), (''skill'', JStr ''heal''),
                                (''amount'', JNum healAmount)]) w1
                    in (w2, Inr (Healed healAmount (a_hp a3) (a_max_hp a3))))
                 else if skill = ''power_strike'' \<and> truthy direction then
                   (if might (a_skills agent) < 3 then (w, Inl RequiresMight3)
                    else case DIRECTIONS (toLowerCase (case direction of Some d \<Rightarrow> d | None \<Rightarrow> [])) of
                      Undefined \<Rightarrow> (w, Inl InvalidDirectionShort)
                    | NotIterable \<Rightarrow> (w, Inl ThrownTypeError)
                    | Vec dx dy \<Rightarrow>
                       (let tx = a_x agent + dx; ty = a_y agent + dy
                        in if isInSafeHaven (a_x agent) (a_y agent) then (w, Inl AttackerInSafeHaven)
                           else if isInSafeHaven tx ty then (w, Inl TargetInSafeHaven)
                           else case getAgentAt w tx ty of
                             None \<Rightarrow> (w, Inl NoTargetInDirection)
                           | Some target \<Rightarrow>
                              (let damage = calculateDamage roll agent target * 2;
                                   t1 = target\<lparr>a_hp := a_hp target - damage\<rparr>;
                                   a1 = applyCooldown now agent Use_skill;
                                   killed = (a_hp t1 \<le> 0);
                                   t2 = (if killed
                                         then t1\<lparr>a_hp := 0, a_alive := False, a_deaths := a_deaths t1 + 1,
                                                 a_respawn_at := Some (now + RESPAWN_TIME_MS)\<rparr>
                                         else t1);
                                   (a2, evs, _) = (if killed
                                                   then addXp now (a1\<lparr>a_kills := a_kills a1 + 1\<rparr>) (XP_kill * 2)
                                                   else (a1, [], False));
                                   w1 = emitEvents evs w;
                                   w2 = updateAgent t2 (updateAgent a2 w1);
                                   w3 = emitEvent (makeEvent now AGENT_USED_SKILL (Some (a_id a2)) (Some (a_id t2))
                                          [(''name'', JStr (a_name a2)), (''skill'', JStr ''power_strike''),
                                           (''damage'', JNum damage), (''target'', JStr (a_name t2)),
                                           (''killed'', JBool killed)]) w2
                               in (w3, Inr (PowerStrike damage (a_name t2) killed (a_hp t2))))))
                 else if skill = ''scout'' then
                   (if perception (a_skills agent) < 2 then (w, Inl RequiresPerception2)
                    else
                     (let a1 = applyCooldown now agent Use_skill;
                          w1 = updateAgent a1 w;
                          rng = getVisionRange a1 * 2;
                          found = agentsWithin w1 a1 rng
                      in (w1, Inr (Scouted rng (map (\<lambda>a. (a_name a, a_x a, a_y a, a_level a)) found)))))
                 else (w, Inl UnknownSkill)))"

definition getStatus :: "string \<Rightarrow> World \<Rightarrow> error + Agent" where
  "getStatus agentId w =
     (case getAgentById w agentId of None \<Rightarrow> Inl AgentNotFound | Some agent \<Rightarrow> Inr agent)"

subsection \<open>Game tick\<close>

definition SAFE_HAVEN_HEAL_AMOUNT :: int where "SAFE_HAVEN_HEAL_AMOUNT = 5"

text \<open>The \<open>agent.respawn_at && now >= agent.respawn_at\<close> test.\<close>

fun respawnDue :: "int \<Rightarrow> int option \<Rightarrow> bool" where
  "respawnDue now None = False"
| "respawnDue now (Some t) = (t \<noteq> 0 \<and> now \<ge> t)"

text \<open>
  The body of the \<open>for\<close> loop of \<open>tickRespawns\<close> for one agent of the snapshot
  \<open>allAgents\<close>; \<open>rnd\<close> is the random stream of its \<open>findSpawnPoint\<close> call.
\<close>

definition respawnStep ::
  "(int \<Rightarrow> int \<Rightarrow> Terrain) \<Rightarrow> int \<Rightarrow> (nat \<Rightarrow> nat \<times> nat) \<Rightarrow> Agent \<Rightarrow> World \<Rightarrow> World" where
  "respawnStep terr now rnd agent w =
     (let (agent1, w1) =
            (if \<not> a_alive agent \<and> respawnDue now (a_respawn_at agent) then
               (let (x, y) = findSpawnPoint terr rnd w;
                    a' = agent\<lparr>a_alive := True, a_hp := a_max_hp agent, a_x := x, a_y := y,
                               a_respawn_at := None\<rparr>
                in (a', emitEvent (makeEvent now AGENT_RESPAWNED (Some (a_id a')) None
                                     [(''name'', JStr (a_name a')), (''x'', JNum x), (''y'', JNum y)])
                          (updateAgent a' w)))
             else (agent, w))
      in if a_alive agent1 \<and> a_hp agent1 < a_max_hp agent1 \<and> isInSafeHaven (a_x agent1) (a_y agent1)
         then updateAgent (agent1\<lparr>a_hp := min (a_max_hp agent1) (a_hp agent1 + SAFE_HAVEN_HEAL_AMOUNT)\<rparr>) w1
         else w1)"

fun tickRespawnsLoop ::
  "(int \<Rightarrow> int \<Rightarrow> Terrain) \<Rightarrow> int \<Rightarrow> (nat \<Rightarrow> nat \<Rightarrow> nat \<times> nat) \<Rightarrow> nat \<Rightarrow> Agent list \<Rightarrow> World \<Rightarrow> World" where
  "tickRespawnsLoop terr now rnds k [] w = w"
| "tickRespawnsLoop terr now rnds k (agent # rest) w =
     tickRespawnsLoop terr now rnds (Suc k) rest (respawnStep terr now (rnds k) agent w)"

definition tickRespawns ::
  "(int \<Rightarrow> int \<Rightarrow> Terrain) \<Rightarrow> int \<Rightarrow> (nat \<Rightarrow> nat \<Rightarrow> nat \<times> nat) \<Rightarrow> World \<Rightarrow> World" where
  "tickRespawns terr now rnds w = tickRespawnsLoop terr now rnds 0 (getAllAgents w) w"

text \<open>
  The random inputs of one \<open>spawnOneResource\<close> call: the draw \<open>Math.random()\<close> of the
  type selection, the floored draws of the candidate cells, the floored draw of the
  stack size, and the fresh identifier.
\<close>

record SpawnRand =
  sr_r :: real
  sr_cells :: "nat \<Rightarrow> nat \<times> nat"
  sr_amount :: nat
  sr_uuid :: string

text \<open>The cumulative-subtraction loop over \<open>Object.entries(RESOURCE_SPAWN_WEIGHTS)\<close>.\<close>

fun selectType :: "real \<Rightarrow> ResourceType list \<Rightarrow> ResourceType" where
  "selectType r [] = ENERGY_CRYSTAL"
| "selectType r (t # ts) =
     (let r' = r - RESOURCE_SPAWN_WEIGHTS t in if r' \<le> 0 then t else selectType r' ts)"

definition resourceTypes :: "ResourceType list" where
  "resourceTypes = [ENERGY_CRYSTAL, METAL_ORE, BIOMASS, ARTIFACT]"

definition resourceCandidate :: "(nat \<Rightarrow> nat \<times> nat) \<Rightarrow> nat \<Rightarrow> int \<times> int" where
  "resourceCandidate rnd i = (1 + int (fst (rnd i) mod 48), 1 + int (snd (rnd i) mod 48))"

text \<open>
  \<open>spawnOneResource\<close>: the new state and the returned flag, or the exception of the
  insert. The \<open>symbol\<close> entry of the event payload, a glyph outside ASCII, is left out.
\<close>

definition spawnOneResource ::
  "(int \<Rightarrow> int \<Rightarrow> Terrain) \<Rightarrow> int \<Rightarrow> SpawnRand \<Rightarrow> World \<Rightarrow> error + World \<times> bool" where
  "spawnOneResource terr now sr w =
     (let totalWeight = sum_list (map RESOURCE_SPAWN_WEIGHTS resourceTypes);
          selectedType = selectType (sr_r sr * totalWeight) resourceTypes
      in case find (\<lambda>(x, y). isPassable terr x y \<and> getResourceAt w x y = None \<and> getAgentAt w x y = None)
                (map (resourceCandidate (sr_cells sr)) [0..<50]) of
           None \<Rightarrow> Inr (w, False)
         | Some (x, y) \<Rightarrow>
            (let resource = \<lparr>r_id = sr_uuid sr, r_type = selectedType, r_x = x, r_y = y,
                             r_amount = (if selectedType = ARTIFACT then 1 else 1 + int (sr_amount sr mod 3)),
                             r_spawned_at = now\<rparr>
             in case insertResource resource w of
                  Inl e \<Rightarrow> Inl e
                | Inr w' \<Rightarrow>
                    Inr (emitEvent (makeEvent now RESOURCE_SPAWNED None None
                                      [(''type'', JStr (resourceName selectedType)),
                                       (''x'', JNum x), (''y'', JNum y)]) w', True)))"

text \<open>
  The \<open>for (let i = 0; i < toSpawn; i++)\<close> loop of \<open>tickResources\<close>, with \<open>n\<close>
  iterations left from index \<open>i\<close>. Besides the state it returns the outcome of every
  \<open>spawnOneResource\<close> call it made, in order: the returned flag, or the exception that
  ended the loop.
\<close>

fun spawnLoop ::
  "(int \<Rightarrow> int \<Rightarrow> Terrain) \<Rightarrow> int \<Rightarrow> (nat \<Rightarrow> SpawnRand) \<Rightarrow> nat \<Rightarrow> nat \<Rightarrow> World \<Rightarrow>
   World \<times> (error + bool) list" where
  "spawnLoop terr now srs i 0 w = (w, [])"
| "spawnLoop terr now srs i (Suc n) w =
     (if getResourceCount w \<ge> MAX_RESOURCES_ON_MAP then (w, [])
      else case spawnOneResource terr now (srs i) w of
        Inl e \<Rightarrow> (w, [Inl e])
      | Inr (w', spawned) \<Rightarrow>
          (case spawnLoop terr now srs (Suc i) n w' of (w'', tr) \<Rightarrow> (w'', Inr spawned # tr)))"

definition tickResources ::
  "(int \<Rightarrow> int \<Rightarrow> Terrain) \<Rightarrow> int \<Rightarrow> (nat \<Rightarrow> SpawnRand) \<Rightarrow> World \<Rightarrow> World \<times> (error + bool) list" where
  "tickResources terr now srs w =
     (let count = getResourceCount w
      in if count \<ge> MAX_RESOURCES_ON_MAP then (w, [])
         else (let toSpawn = (if count < MIN_RESOURCES_ON_MAP then RESOURCE_BURST_COUNT else 1)
               in spawnLoop terr now srs 0 toSpawn w))"

definition INACTIVITY_TIMEOUT_MS :: int where "INACTIVITY_TIMEOUT_MS = 5 * 60 * 1000"

text \<open>The body of the \<open>for\<close> loop of \<open>tickInactivity\<close> for one agent of the snapshot.\<close>

definition inactivityStep :: "int \<Rightarrow> Agent \<Rightarrow> World \<Rightarrow> World" where
  "inactivityStep now agent w =
     (if truthy (a_session_id agent) \<and> now - a_last_action_at agent > INACTIVITY_TIMEOUT_MS
      then (let a' = agent\<lparr>a_session_id := None\<rparr>
            in emitEvent (makeEvent now AGENT_DISCONNECTED (Some (a_id a')) None
                            [(''name'', JStr (a_name a')), (''reason'', JStr ''inactivity'')])
                 (updateAgent a' w))
      else w)"

definition tickInactivity :: "int \<Rightarrow> World \<Rightarrow> World" where
  "tickInactivity now w = fold (inactivityStep now) (getAllAgents w) w"

text \<open>
  One run of the interval callback of \<open>startGameLoop\<close>. An exception of
  \<open>tickResources\<close> leaves the callback before \<open>tickInactivity\<close>.
\<close>

definition tick ::
  "(int \<Rightarrow> int \<Rightarrow> Terrain) \<Rightarrow> int \<Rightarrow> (nat \<Rightarrow> nat \<Rightarrow> nat \<times> nat) \<Rightarrow> (nat \<Rightarrow> SpawnRand) \<Rightarrow> World \<Rightarrow> World" where
  "tick terr now rnds srs w =
     (let w1 = tickRespawns terr now rnds w;
          (w2, tr) = tickResources terr now srs w1
      in if list_ex isl tr then w2 else tickInactivity now w2)"

subsection \<open>Sessions\<close>

definition disconnectSession :: "int \<Rightarrow> string \<Rightarrow> World \<Rightarrow> World" where
  "disconnectSession now sessionId w =
     (case getAgentBySession w sessionId of
        None \<Rightarrow> w
      | Some agent \<Rightarrow>
         (let a' = agent\<lparr>a_session_id := None\<rparr>
          in emitEvent (makeEvent now AGENT_DISCONNECTED (Some (a_id a')) None
                          [(''name'', JStr (a_name a'))])
               (updateAgent a' w)))"

definition reconnectAgent ::
  "(string \<Rightarrow> string) \<Rightarrow> int \<Rightarrow> string \<Rightarrow> string \<Rightarrow> string option \<Rightarrow> World \<Rightarrow> World \<times> (error + Agent)" where
  "reconnectAgent hashSecret now sessionId agentName secret w =
     (case getAgentByName w agentName of
        None \<Rightarrow> (w, Inl AgentNotFound)
      | Some agent \<Rightarrow>
          if truthy (a_session_id agent) \<and> a_session_id agent \<noteq> Some sessionId
            then (w, Inl BoundToOtherSession)
          else if truthy (a_secret_hash agent) \<and> \<not> truthy secret
            then (w, Inl ReconnectSecretRequired)
          else if truthy (a_secret_hash agent) \<and> map_option hashSecret secret \<noteq> a_secret_hash agent
            then (w, Inl ReconnectIncorrectSecret)
          else
           (let a' = agent\<lparr>a_session_id := Some sessionId, a_last_action_at := now\<rparr>
            in (updateAgent a' w, Inr a')))"

text \<open>
  Modelled from the spec: \<open>renameAgent\<close>. The MCP server imports it from the game
  engine and calls it with the agent's id and the new name, reading \<open>ok\<close>, \<open>error\<close>,
  \<open>old_name\<close> and \<open>new_name\<close> from the result; its body, and the database statement
  that writes the \<open>name\<close> column, are not part of the sources at hand. The model
  follows the specification: the name-validation rule of \<open>register\<close>, no collision
  with another agent's name, only the name changes, and no cooldown is consulted.
\<close>

definition renameAgent :: "string \<Rightarrow> string \<Rightarrow> World \<Rightarrow> World \<times> (error + string \<times> string)" where
  "renameAgent agentId newName w =
     (case getAgentById w agentId of
        None \<Rightarrow> (w, Inl AgentNotFound)
      | Some agent \<Rightarrow>
          if newName = [] \<or> length newName < 2 \<or> length newName > 20 then (w, Inl NameLength)
          else if \<not> list_all nameChar newName then (w, Inl NameChars)
          else if list_ex (\<lambda>r. a_name r = newName \<and> a_id r \<noteq> agentId) (agents w)
            then (w, Inl NameTaken)
          else (w\<lparr>agents := map (\<lambda>r. if a_id r = agentId then r\<lparr>a_name := newName\<rparr> else r) (agents w)\<rparr>,
                Inr (a_name agent, newName)))"

subsection \<open>Runs of the engine\<close>

text \<open>
  The calls that change the state, each with the clock value and the random draws it
  consumes, and the state after a sequence of them from the empty database.
\<close>

datatype Command =
    Register int string "nat \<Rightarrow> nat \<times> nat" string string "string option"
  | MoveCmd int string string
  | AttackCmd int int string string
  | GatherCmd int string
  | CommunicateCmd int string string
  | LevelUpSkillCmd string string
  | UseSkillCmd int int string string "string option"
  | TickCmd int "nat \<Rightarrow> nat \<Rightarrow> nat \<times> nat" "nat \<Rightarrow> SpawnRand"
  | DisconnectCmd int string
  | ReconnectCmd int string string "string option"

fun exec :: "(int \<Rightarrow> int \<Rightarrow> Terrain) \<Rightarrow> (string \<Rightarrow> string) \<Rightarrow> Command \<Rightarrow> World \<Rightarrow> World" where
  "exec terr H (Register now uuid rnd sessionId name secret) w =
     fst (register terr H now uuid rnd sessionId name secret w)"
| "exec terr H (MoveCmd now agentId direction) w = fst (move terr now agentId direction w)"
| "exec terr H (AttackCmd now roll agentId direction) w = fst (attack now roll agentId direction w)"
| "exec terr H (GatherCmd now agentId) w = fst (gather now agentId w)"
| "exec terr H (CommunicateCmd now agentId message) w = fst (communicate now agentId message w)"
| "exec terr H (LevelUpSkillCmd agentId skill) w = fst (levelUpSkill agentId skill w)"
| "exec terr H (UseSkillCmd now roll agentId skillName direction) w =
     fst (useSkill now roll agentId skillName direction w)"
| "exec terr H (TickCmd now rnds srs) w = tick terr now rnds srs w"
| "exec terr H (DisconnectCmd now sessionId) w = disconnectSession now sessionId w"
| "exec terr H (ReconnectCmd now sessionId agentName secret) w =
     fst (reconnectAgent H now sessionId agentName secret w)"

definition emptyWorld :: World where
  "emptyWorld = \<lparr>agents = [], resources = [], events = []\<rparr>"

definition run :: "(int \<Rightarrow> int \<Rightarrow> Terrain) \<Rightarrow> (string \<Rightarrow> string) \<Rightarrow> Command list \<Rightarrow> World \<Rightarrow> World" where
  "run terr H cmds w = fold (exec terr H) cmds w"

text \<open>The alive agents on a cell.\<close>

definition occupants :: "World \<Rightarrow> int \<Rightarrow> int \<Rightarrow> Agent list" where
  "occupants w x y = filter (\<lambda>a. a_alive a \<and> a_x a = x \<and> a_y a = y) (agents w)"

section \<open>Example data\<close>

text \<open>A freshly registered agent, used to instantiate the theorems below.\<close>

definition exampleAgent :: Agent where
  "exampleAgent =
     \<lparr>a_id = ''id-rex'', a_name = ''Rex'', a_x = 10, a_y = 10, a_hp = 50, a_max_hp = 50,
      a_attack = 0, a_defense = 0, a_level = 1, a_xp = 0, a_xp_to_next = 100,
      a_skill_points = 0, a_skills = DEFAULT_SKILLS, a_kills = 0, a_deaths = 0,
      a_alive = True, a_respawn_at = None, a_cooldowns = DEFAULT_COOLDOWNS,
      a_inventory = DEFAULT_INVENTORY, a_created_at = 0,
      a_last_action_at = 0, a_session_id = Some ''s1'', a_secret_hash = None\<rparr>"

text \<open>
  A map that \<open>generateMap\<close> can produce: water on the cell \<open>(10, 9)\<close>, open ground
  on every other interior cell.
\<close>

definition exampleTerrain :: "int \<Rightarrow> int \<Rightarrow> Terrain" where
  "exampleTerrain = generateMap (\<lambda>y x. if x = 10 \<and> y = 9 then 0.06 else 0.5)"

definition exampleWorld :: World where
  "exampleWorld = \<lparr>agents = [exampleAgent], resources = [], events = []\<rparr>"

text \<open>The test of \<open>tickInactivity\<close>: a live session that has been idle too long.\<close>

definition evicted :: "int \<Rightarrow> Agent \<Rightarrow> bool" where
  "evicted now r \<longleftrightarrow> truthy (a_session_id r) \<and> now - a_last_action_at r > INACTIVITY_TIMEOUT_MS"

text \<open>
  An agent that reached level 2, has not spent its skill point, and was then killed: it
  is dead, with no hit points, waiting for its respawn.
\<close>

definition deadAgent :: Agent where
  "deadAgent = exampleAgent\<lparr>a_hp := 0, a_max_hp := 55, a_level := 2, a_xp_to_next := 150,
                 a_skill_points := 1, a_alive := False, a_deaths := 1, a_respawn_at := Some 10000\<rparr>"

definition deadWorld :: World where
  "deadWorld = \<lparr>agents = [deadAgent], resources = [], events = []\<rparr>"

text \<open>
  Two agents next to each other on the west edge of the safe haven: the first, with
  might 3, stands outside on \<open>(20, 25)\<close>, the second inside on \<open>(21, 25)\<close>.
\<close>

definition havenRex :: Agent where
  "havenRex = exampleAgent\<lparr>a_x := 20, a_y := 25, a_skills := DEFAULT_SKILLS\<lparr>might := 3\<rparr>\<rparr>"

definition havenZed :: Agent where
  "havenZed = exampleAgent\<lparr>a_id := ''id-zed'', a_name := ''Zed'', a_x := 21, a_y := 25,
                 a_session_id := Some ''s2''\<rparr>"

definition havenWorld :: World where
  "havenWorld = \<lparr>agents = [havenRex, havenZed], resources = [], events = []\<rparr>"

text \<open>A stand-in for the hash function and a random stream that always draws the cell \<open>(10, 10)\<close>.\<close>

definition exampleHash :: "string \<Rightarrow> string" where
  "exampleHash s = ''sha256:'' @ s"

definition exampleRnd :: "nat \<Rightarrow> nat \<times> nat" where
  "exampleRnd i = (8, 8)"

text \<open>The example agent after its session was closed.\<close>

definition offlineWorld :: World where
  "offlineWorld = \<lparr>agents = [exampleAgent\<lparr>a_session_id := None\<rparr>], resources = [], events = []\<rparr>"

text \<open>
  Random inputs for the spawn attempts of one tick: attempt \<open>i\<close> first tries the cell
  \<open>(1 + i, 4)\<close> and uses an identifier of \<open>i + 1\<close> letters.
\<close>

definition exampleSpawn :: "nat \<Rightarrow> SpawnRand" where
  "exampleSpawn i = \<lparr>sr_r = 1 / 2, sr_cells = (\<lambda>k. (i + k, 3)), sr_amount = i,
                      sr_uuid = replicate (Suc i) CHR ''r''\<rparr>"

text \<open>
  The invariants behind single occupancy: agent ids are unique (the primary key), the
  agent cap holds, and two alive agents on the same cell are the same agent.
\<close>

definition uniqueIds :: "World \<Rightarrow> bool" where
  "uniqueIds w \<longleftrightarrow> distinct (map a_id (agents w))"

definition singleOccupancy :: "World \<Rightarrow> bool" where
  "singleOccupancy w \<longleftrightarrow>
     (\<forall>a \<in> set (agents w). \<forall>b \<in> set (agents w).
        a_alive a \<and> a_alive b \<and> a_x a = a_x b \<and> a_y a = a_y b \<longrightarrow> a_id a = a_id b)"

definition engineInv :: "World \<Rightarrow> bool" where
  "engineInv w \<longleftrightarrow> uniqueIds w \<and> length (agents w) \<le> MAX_AGENTS \<and> singleOccupancy w"

text \<open>A map with more passable interior cells than there can be agents.\<close>

definition roomy :: "(int \<Rightarrow> int \<Rightarrow> Terrain) \<Rightarrow> bool" where
  "roomy terr \<longleftrightarrow> length (filter (\<lambda>(x, y). isPassable terr x y) scanCells) > MAX_AGENTS"

text \<open>An update that keeps an agent where its stored row is and brings no dead agent back.\<close>

definition samePlace :: "Agent \<Rightarrow> Agent \<Rightarrow> bool" where
  "samePlace a' r \<longleftrightarrow>
     a_id a' = a_id r \<and> a_x a' = a_x r \<and> a_y a' = a_y r \<and> (a_alive a' \<longrightarrow> a_alive r)"

section \<open>Verification\<close>

subsection \<open>Formulas\<close>






lemma levelUp_fields:
  "a_xp (levelUp a) = a_xp a - a_xp_to_next a"
  "a_level (levelUp a) = a_level a + 1"
  "a_skill_points (levelUp a) = a_skill_points a + 1"
  "a_max_hp (levelUp a) = a_max_hp a + 5"
  "a_hp (levelUp a) = a_max_hp a + 5"
  "a_xp_to_next (levelUp a) = xpForLevel (a_level a + 1)"
  "a_id (levelUp a) = a_id a"
  "a_name (levelUp a) = a_name a"
  "a_x (levelUp a) = a_x a"
  "a_y (levelUp a) = a_y a"
  "a_alive (levelUp a) = a_alive a"
  "a_cooldowns (levelUp a) = a_cooldowns a"
  "a_last_action_at (levelUp a) = a_last_action_at a"
  "a_session_id (levelUp a) = a_session_id a"
  by (simp_all add: levelUp_def Let_def)







lemma a_id_updateRow [simp]: "a_id (updateRow a r) = a_id r"
  by (simp add: updateRow_def)

lemma find_map_opt: "find P (map f xs) = map_option f (find (\<lambda>x. P (f x)) xs)"
  by (induction xs) simp_all

lemma getAgentById_updateAgent:
  "getAgentById (updateAgent a w) i = map_option (updateRow a) (getAgentById w i)"
  by (simp add: getAgentById_def updateAgent_def find_map_opt)

lemma getAgentById_emitEvent [simp]: "getAgentById (emitEvent ev w) i = getAgentById w i"
  by (simp add: getAgentById_def emitEvent_def insertEvent_def)

lemma getAgentById_SomeD: "getAgentById w i = Some a \<Longrightarrow> a \<in> set (agents w) \<and> a_id a = i"
  by (auto simp: getAgentById_def find_Some_iff)

lemma getCooldown_skills: "a_skills a = a_skills b \<Longrightarrow> getCooldown action a = getCooldown action b"
  by (simp add: getCooldown_def)

lemma move_success:
  assumes "move terr now agentId direction w = (w', Inr res)"
  shows "\<exists>agent dx dy.
           getAgentById w agentId = Some agent \<and> a_alive agent \<and>
           checkCooldown now agent Move = None \<and>
           DIRECTIONS (toLowerCase direction) = Vec dx dy \<and>
           isPassable terr (a_x agent + dx) (a_y agent + dy) \<and>
           getAgentAt w (a_x agent + dx) (a_y agent + dy) = None \<and>
           res = (a_x agent + dx, a_y agent + dy, terr (a_y agent + dy) (a_x agent + dx),
                  isInSafeHaven (a_x agent + dx) (a_y agent + dy)) \<and>
           (\<exists>ev. w' = emitEvent ev (updateAgent
              (if terr (a_y agent + dy) (a_x agent + dx) = WATER
               then agent\<lparr>a_x := a_x agent + dx, a_y := a_y agent + dy,
                      a_cooldowns := (a_cooldowns agent)\<lparr>cd_move := now + getCooldown Move agent * 2\<rparr>\<rparr>
               else agent\<lparr>a_x := a_x agent + dx, a_y := a_y agent + dy,
                      a_cooldowns := (a_cooldowns agent)\<lparr>cd_move := now + getCooldown Move agent\<rparr>,
                      a_last_action_at := now\<rparr>) w))"
  using assms
  by (auto simp: move_def Let_def applyCooldown_def getCooldown_def
           split: option.splits if_splits DirLookup.splits)

text \<open>
  Claim C5. A successful move reports the terrain of its destination; the agent is on the
  destination at once, and its move cooldown-ready timestamp is \<open>now\<close> plus twice its
  computed move cooldown when that terrain is water, and \<open>now\<close> plus the single computed
  cooldown otherwise.
\<close>

theorem move_water_doubles_cooldown:
  assumes "getAgentById w agentId = Some agent"
      and "move terr now agentId direction w = (w', Inr (nx, ny, t, h))"
  shows "t = terr ny nx \<and>
         (\<exists>agent'. getAgentById w' agentId = Some agent' \<and> a_x agent' = nx \<and> a_y agent' = ny \<and>
            cd_move (a_cooldowns agent') =
              (if t = WATER then now + 2 * getCooldown Move agent else now + getCooldown Move agent))"
proof -
  from move_success [OF assms(2)] assms(1) obtain dx dy ev where
    r: "nx = a_x agent + dx" "ny = a_y agent + dy" "t = terr ny nx"
    and w': "w' = emitEvent ev (updateAgent
              (if terr ny nx = WATER
               then agent\<lparr>a_x := nx, a_y := ny,
                      a_cooldowns := (a_cooldowns agent)\<lparr>cd_move := now + getCooldown Move agent * 2\<rparr>\<rparr>
               else agent\<lparr>a_x := nx, a_y := ny,
                      a_cooldowns := (a_cooldowns agent)\<lparr>cd_move := now + getCooldown Move agent\<rparr>,
                      a_last_action_at := now\<rparr>) w)"
    by auto
  show ?thesis
    using assms(1) r(3)
    by (simp add: w' getAgentById_updateAgent updateRow_def)
qed

lemma exampleMove:
  "move exampleTerrain 1000 ''id-rex'' ''North'' exampleWorld
     = (fst (move exampleTerrain 1000 ''id-rex'' ''North'' exampleWorld), Inr (10, 9, WATER, False))"
  by code_simp

lemma exampleGet: "getAgentById exampleWorld ''id-rex'' = Some exampleAgent"
  by code_simp

lemma exampleCd: "getCooldown Move exampleAgent = 1000"
  by (simp add: getCooldown_def exampleAgent_def DEFAULT_SKILLS_def)

lemma exampleMove_snd:
  "snd (move exampleTerrain 1000 ''id-rex'' ''North'' exampleWorld) = Inr (10, 9, WATER, False)"
  by code_simp

theorem move_water_doubles_cooldown_witness:
  "getAgentById exampleWorld ''id-rex'' = Some exampleAgent \<and>
   snd (move exampleTerrain 1000 ''id-rex'' ''North'' exampleWorld) = Inr (10, 9, WATER, False) \<and>
   (\<exists>agent'. getAgentById (fst (move exampleTerrain 1000 ''id-rex'' ''North'' exampleWorld)) ''id-rex''
               = Some agent' \<and>
             a_x agent' = 10 \<and> a_y agent' = 9 \<and> cd_move (a_cooldowns agent') = 3000)"
  using move_water_doubles_cooldown [OF exampleGet exampleMove] exampleGet exampleMove_snd
  by (simp add: exampleCd)

lemma updateRow_other: "a_id r \<noteq> a_id a \<Longrightarrow> updateRow a r = r"
  by (simp add: updateRow_def)

lemma map_updateRow_split:
  assumes "distinct (map a_id (pre @ x # post))" "a_id a = a_id x"
  shows "map (updateRow a) (pre @ x # post) = pre @ updateRow a x # post"
proof -
  have "\<forall>r \<in> set pre \<union> set post. a_id r \<noteq> a_id a" using assms by (auto simp: image_iff)
  then have "map (updateRow a) pre = pre" "map (updateRow a) post = post"
    by (auto intro!: map_idI simp: updateRow_other)
  then show ?thesis by simp
qed

lemma inactivityStep_agents:
  "agents (inactivityStep now x w0)
     = (if evicted now x then map (updateRow (x\<lparr>a_session_id := None\<rparr>)) (agents w0) else agents w0)"
  by (simp add: inactivityStep_def evicted_def Let_def emitEvent_def insertEvent_def updateAgent_def)

lemma inactivityStep_events:
  "events (inactivityStep now x w0)
     = events w0 @ map (\<lambda>r. makeEvent now AGENT_DISCONNECTED (Some (a_id r)) None
                              [(''name'', JStr (a_name r)), (''reason'', JStr ''inactivity'')])
                     (filter (evicted now) [x])"
  by (simp add: inactivityStep_def evicted_def Let_def emitEvent_def insertEvent_def updateAgent_def)

lemma updateRow_self_session: "updateRow (x\<lparr>a_session_id := v\<rparr>) x = x\<lparr>a_session_id := v\<rparr>"
  by (simp add: updateRow_def)

lemma inactivity_fold:
  "distinct (map a_id (pre @ xs)) \<Longrightarrow> agents w0 = pre @ xs \<Longrightarrow>
   agents (fold (inactivityStep now) xs w0)
     = pre @ map (\<lambda>r. if evicted now r then r\<lparr>a_session_id := None\<rparr> else r) xs \<and>
   events (fold (inactivityStep now) xs w0)
     = events w0 @ map (\<lambda>r. makeEvent now AGENT_DISCONNECTED (Some (a_id r)) None
                              [(''name'', JStr (a_name r)), (''reason'', JStr ''inactivity'')])
                     (filter (evicted now) xs)"
proof (induction xs arbitrary: pre w0)
  case Nil
  then show ?case by simp
next
  case (Cons x xs)
  let ?x' = "if evicted now x then x\<lparr>a_session_id := None\<rparr> else x"
  let ?w1 = "inactivityStep now x w0"
  have m: "map (updateRow (x\<lparr>a_session_id := None\<rparr>)) (pre @ x # xs)
            = pre @ x\<lparr>a_session_id := None\<rparr> # xs"
    using Cons.prems(1) map_updateRow_split [of pre x xs "x\<lparr>a_session_id := None\<rparr>"]
    by (simp only: updateRow_self_session) simp
  have a1: "agents ?w1 = (pre @ [?x']) @ xs"
    by (simp only: inactivityStep_agents Cons.prems(2) m) simp
  have d1: "distinct (map a_id ((pre @ [?x']) @ xs))" using Cons.prems(1) by simp
  from Cons.IH [OF d1 a1] show ?case by (simp add: inactivityStep_events)
qed

lemma tickInactivity_effect:
  assumes "distinct (map a_id (agents w))"
  shows "agents (tickInactivity now w)
           = map (\<lambda>r. if evicted now r then r\<lparr>a_session_id := None\<rparr> else r) (agents w)"
    and "events (tickInactivity now w)
           = events w @ map (\<lambda>r. makeEvent now AGENT_DISCONNECTED (Some (a_id r)) None
                              [(''name'', JStr (a_name r)), (''reason'', JStr ''inactivity'')])
                     (filter (evicted now) (agents w))"
  using inactivity_fold [of "[]" "agents w" w now] assms
  by (simp_all add: tickInactivity_def getAllAgents_def)

lemma getAgentById_map_evict:
  "find (\<lambda>a. a_id a = i) (map (\<lambda>r. if evicted now r then r\<lparr>a_session_id := None\<rparr> else r) xs)
     = map_option (\<lambda>r. if evicted now r then r\<lparr>a_session_id := None\<rparr> else r) (find (\<lambda>a. a_id a = i) xs)"
  by (induction xs) simp_all

text \<open>
  Claim C10. A successful move onto water leaves \<open>last_action_at\<close> as it was, whereas a
  successful move onto other terrain sets it to \<open>now\<close>. Hence, after a water move, an
  agent with a live session whose earlier \<open>last_action_at\<close> lies more than the inactivity
  timeout before the tick loses its session in \<open>tickInactivity\<close>, which emits the
  disconnect event.
\<close>

theorem water_move_keeps_last_action:
  assumes "distinct (map a_id (agents w))"
      and "getAgentById w agentId = Some agent"
      and "move terr now agentId direction w = (w', Inr (nx, ny, t, h))"
  shows "\<exists>agent'. getAgentById w' agentId = Some agent' \<and>
           a_session_id agent' = a_session_id agent \<and>
           (t \<noteq> WATER \<longrightarrow> a_last_action_at agent' = now) \<and>
           (t = WATER \<longrightarrow>
              a_last_action_at agent' = a_last_action_at agent \<and>
              (truthy (a_session_id agent) \<and> tnow - a_last_action_at agent > INACTIVITY_TIMEOUT_MS \<longrightarrow>
                 (\<exists>agent''. getAgentById (tickInactivity tnow w') agentId = Some agent'' \<and>
                              a_session_id agent'' = None) \<and>
                 makeEvent tnow AGENT_DISCONNECTED (Some agentId) None
                     [(''name'', JStr (a_name agent)), (''reason'', JStr ''inactivity'')]
                   \<in> set (events (tickInactivity tnow w'))))"
proof -
  from move_success [OF assms(3)] assms(2) obtain dx dy ev a2 where
    r: "nx = a_x agent + dx" "ny = a_y agent + dy" "t = terr ny nx"
    and a2: "a2 = (if terr ny nx = WATER
               then agent\<lparr>a_x := nx, a_y := ny,
                      a_cooldowns := (a_cooldowns agent)\<lparr>cd_move := now + getCooldown Move agent * 2\<rparr>\<rparr>
               else agent\<lparr>a_x := nx, a_y := ny,
                      a_cooldowns := (a_cooldowns agent)\<lparr>cd_move := now + getCooldown Move agent\<rparr>,
                      a_last_action_at := now\<rparr>)"
    and w': "w' = emitEvent ev (updateAgent a2 w)"
    by auto
  let ?a' = "updateRow a2 agent"
  have g: "getAgentById w' agentId = Some ?a'"
    using assms(2) by (simp add: w' getAgentById_updateAgent)
  have f: "a_session_id ?a' = a_session_id agent" "a_name ?a' = a_name agent" "a_id ?a' = agentId"
    "t \<noteq> WATER \<Longrightarrow> a_last_action_at ?a' = now"
    "t = WATER \<Longrightarrow> a_last_action_at ?a' = a_last_action_at agent"
    using getAgentById_SomeD [OF assms(2)] r(3) by (simp_all add: a2 updateRow_def)
  have d: "distinct (map a_id (agents w'))"
    using assms(1) by (simp add: w' emitEvent_def insertEvent_def updateAgent_def comp_def)
  have tick: "(\<exists>agent''. getAgentById (tickInactivity tnow w') agentId = Some agent'' \<and>
                              a_session_id agent'' = None) \<and>
                 makeEvent tnow AGENT_DISCONNECTED (Some agentId) None
                     [(''name'', JStr (a_name agent)), (''reason'', JStr ''inactivity'')]
                   \<in> set (events (tickInactivity tnow w'))"
    if e: "evicted tnow ?a'"
  proof
    show "\<exists>agent''. getAgentById (tickInactivity tnow w') agentId = Some agent'' \<and> a_session_id agent'' = None"
      using g e unfolding getAgentById_def tickInactivity_effect(1) [OF d] getAgentById_map_evict
      by simp
    have "?a' \<in> set (filter (evicted tnow) (agents w'))"
      using getAgentById_SomeD [OF g] e by simp
    then have "makeEvent tnow AGENT_DISCONNECTED (Some (a_id ?a')) None
                 [(''name'', JStr (a_name ?a')), (''reason'', JStr ''inactivity'')]
               \<in> set (events (tickInactivity tnow w'))"
      unfolding tickInactivity_effect(2) [OF d] by (simp only: set_append set_map) blast
    then show "makeEvent tnow AGENT_DISCONNECTED (Some agentId) None
                     [(''name'', JStr (a_name agent)), (''reason'', JStr ''inactivity'')]
                   \<in> set (events (tickInactivity tnow w'))"
      by (simp only: f)
  qed
  have tick': "t = WATER \<longrightarrow>
              a_last_action_at ?a' = a_last_action_at agent \<and>
              (truthy (a_session_id agent) \<and> tnow - a_last_action_at agent > INACTIVITY_TIMEOUT_MS \<longrightarrow>
                 (\<exists>agent''. getAgentById (tickInactivity tnow w') agentId = Some agent'' \<and>
                              a_session_id agent'' = None) \<and>
                 makeEvent tnow AGENT_DISCONNECTED (Some agentId) None
                     [(''name'', JStr (a_name agent)), (''reason'', JStr ''inactivity'')]
                   \<in> set (events (tickInactivity tnow w')))"
    using tick f by (simp add: evicted_def)
  from g f(1) f(4) tick' show ?thesis by blast
qed

lemma exampleDistinct: "distinct (map a_id (agents exampleWorld))"
  by (simp add: exampleWorld_def)

lemma exampleMoveLate:
  "move exampleTerrain 299000 ''id-rex'' ''north'' exampleWorld
     = (fst (move exampleTerrain 299000 ''id-rex'' ''north'' exampleWorld), Inr (10, 9, WATER, False))"
  by code_simp

lemma exampleMoveLate_snd:
  "snd (move exampleTerrain 299000 ''id-rex'' ''north'' exampleWorld) = Inr (10, 9, WATER, False)"
  by code_simp

theorem water_move_keeps_last_action_witness:
  "distinct (map a_id (agents exampleWorld)) \<and>
   getAgentById exampleWorld ''id-rex'' = Some exampleAgent \<and>
   snd (move exampleTerrain 299000 ''id-rex'' ''north'' exampleWorld) = Inr (10, 9, WATER, False) \<and>
   truthy (a_session_id exampleAgent) \<and> 300001 - a_last_action_at exampleAgent > INACTIVITY_TIMEOUT_MS \<and>
   (\<exists>agent''. getAgentById (tickInactivity 300001
                   (fst (move exampleTerrain 299000 ''id-rex'' ''north'' exampleWorld))) ''id-rex''
                 = Some agent'' \<and> a_session_id agent'' = None)"
  using water_move_keeps_last_action [OF exampleDistinct exampleGet exampleMoveLate, of 300001]
        exampleDistinct exampleGet exampleMoveLate_snd
  by (auto simp add: exampleAgent_def INACTIVITY_TIMEOUT_MS_def)

lemma dead_agent_rejected:
  assumes "getAgentById w agentId = Some agent" "\<not> a_alive agent"
  shows "move terr now agentId direction w = (w, Inl DeadRespawning)"
    and "attack now roll agentId direction w = (w, Inl DeadRespawning)"
    and "gather now agentId w = (w, Inl DeadRespawning)"
    and "communicate now agentId message w = (w, Inl DeadRespawning)"
    and "useSkill now roll agentId skillName dir w = (w, Inl Dead)"
  using assms
  by (simp_all add: move_def attack_def gather_def communicate_def useSkill_def)

text \<open>
  Claim C3. The claim fails for \<open>levelUpSkill\<close>, which never tests the alive flag: called
  for the dead agent above with the skill \<open>fortitude\<close> it succeeds, spends the skill point
  and raises defense, maximum hit points and hit points of the agent, which stays dead
  with 10 hit points. On the same state \<open>move\<close>, \<open>attack\<close>, \<open>gather\<close>, \<open>communicate\<close>
  and \<open>useSkill\<close> reject the call and leave the state as it is.
\<close>

theorem levelUpSkill_dead_agent:
  "getAgentById deadWorld ''id-rex'' = Some deadAgent \<and> \<not> a_alive deadAgent \<and>
   levelUpSkill ''id-rex'' ''fortitude'' deadWorld
     = (\<lparr>agents = [deadAgent\<lparr>a_skills := DEFAULT_SKILLS\<lparr>fortitude := 1\<rparr>, a_skill_points := 0,
                               a_defense := 1, a_max_hp := 65, a_hp := 10\<rparr>],
         resources = [], events = []\<rparr>,
        Inr (FORTITUDE, 1, 0)) \<and>
   move exampleTerrain 20000 ''id-rex'' ''north'' deadWorld = (deadWorld, Inl DeadRespawning) \<and>
   attack 20000 0 ''id-rex'' ''north'' deadWorld = (deadWorld, Inl DeadRespawning) \<and>
   gather 20000 ''id-rex'' deadWorld = (deadWorld, Inl DeadRespawning) \<and>
   communicate 20000 ''id-rex'' ''hello'' deadWorld = (deadWorld, Inl DeadRespawning) \<and>
   useSkill 20000 0 ''id-rex'' ''heal'' None deadWorld = (deadWorld, Inl Dead)"
proof -
  have g: "getAgentById deadWorld ''id-rex'' = Some deadAgent"
    by (simp add: getAgentById_def deadWorld_def deadAgent_def exampleAgent_def)
  have d: "\<not> a_alive deadAgent" by (simp add: deadAgent_def)
  have l: "levelUpSkill ''id-rex'' ''fortitude'' deadWorld
     = (\<lparr>agents = [deadAgent\<lparr>a_skills := DEFAULT_SKILLS\<lparr>fortitude := 1\<rparr>, a_skill_points := 0,
                               a_defense := 1, a_max_hp := 65, a_hp := 10\<rparr>],
         resources = [], events = []\<rparr>,
        Inr (FORTITUDE, 1, 0))"
    by code_simp
  from g d l dead_agent_rejected [OF g d] show ?thesis by simp
qed

text \<open>
  Claim C4. When the attacker's cell or the adjacent cell in the given direction lies in
  the safe haven, \<open>attack\<close> and the \<open>power_strike\<close> skill return a structured error and
  the state they return is the state they were given, so no field of either agent
  changes. The error is the first that applies among: dead, on cooldown, (for
  \<open>power_strike\<close>) might below 3, (for \<open>attack\<close>) no agent on the target cell, attacker
  in the safe haven, target in the safe haven.
\<close>

theorem safe_haven_blocks_combat:
  assumes "getAgentById w agentId = Some agent"
      and "DIRECTIONS (toLowerCase direction) = Vec dx dy"
      and "isInSafeHaven (a_x agent) (a_y agent) \<or> isInSafeHaven (a_x agent + dx) (a_y agent + dy)"
      and "toLowerCase skillName = ''power_strike''"
  shows "attack now roll agentId direction w =
           (w, Inl (if \<not> a_alive agent then DeadRespawning
                    else case checkCooldown now agent Attack of
                      Some cdErr \<Rightarrow> cdErr
                    | None \<Rightarrow>
                        if getAgentAt w (a_x agent + dx) (a_y agent + dy) = None then NoAgentInDirection
                        else if isInSafeHaven (a_x agent) (a_y agent) then AttackerInSafeHaven
                        else TargetInSafeHaven))
       \<and> useSkill now roll agentId skillName (Some direction) w =
           (w, Inl (if \<not> a_alive agent then Dead
                    else case checkCooldown now agent Use_skill of
                      Some cdErr \<Rightarrow> cdErr
                    | None \<Rightarrow>
                        if might (a_skills agent) < 3 then RequiresMight3
                        else if isInSafeHaven (a_x agent) (a_y agent) then AttackerInSafeHaven
                        else TargetInSafeHaven))"
proof -
  have d: "direction \<noteq> []"
    using assms(2) by (auto simp: toLowerCase_def DIRECTIONS_def)
  show ?thesis
    using assms d
    by (auto simp: attack_def useSkill_def Let_def split: option.splits)
qed

lemma havenGet: "getAgentById havenWorld ''id-rex'' = Some havenRex"
  by code_simp

lemma havenDir: "DIRECTIONS (toLowerCase ''East'') = Vec 1 0"
  by code_simp

lemma havenSkill: "toLowerCase ''Power_Strike'' = ''power_strike''"
  by code_simp

theorem safe_haven_blocks_combat_witness:
  "isInSafeHaven 21 25 \<and>
   attack 5000 0 ''id-rex'' ''East'' havenWorld = (havenWorld, Inl TargetInSafeHaven) \<and>
   useSkill 5000 0 ''id-rex'' ''Power_Strike'' (Some ''East'') havenWorld
     = (havenWorld, Inl TargetInSafeHaven)"
proof -
  have h: "isInSafeHaven 21 25" by (simp add: isInSafeHaven_def)
  have t: "getAgentAt havenWorld 21 25 \<noteq> None" by code_simp
  have i: "isInSafeHaven (a_x havenRex) (a_y havenRex)
       \<or> isInSafeHaven (a_x havenRex + 1) (a_y havenRex + 0)"
    by (simp add: isInSafeHaven_def havenRex_def)
  from safe_haven_blocks_combat [OF havenGet havenDir i havenSkill, of 5000 0] h t
  show ?thesis
    by (simp add: isInSafeHaven_def checkCooldown_def havenRex_def exampleAgent_def
                  DEFAULT_COOLDOWNS_def DEFAULT_SKILLS_def)
qed

lemma getAgentByName_updateAgent:
  "getAgentByName (updateAgent a w) n = map_option (updateRow a) (getAgentByName w n)"
  by (simp add: getAgentByName_def updateAgent_def find_map_opt updateRow_def)

lemma getAgentByName_SomeD: "getAgentByName w n = Some a \<Longrightarrow> a \<in> set (agents w) \<and> a_name a = n"
  by (auto simp: getAgentByName_def find_Some_iff)

text \<open>
  Claim C6, as stated, fails: the session \<open>s2\<close> owns the agent Zed and registers the name
  Rex, which belongs to an agent with a live session; the call is not rejected, it
  returns Zed.
\<close>

theorem register_live_session_counterexample:
  "list_all nameChar ''Rex'' \<and>
   getAgentByName havenWorld ''Rex'' = Some havenRex \<and> truthy (a_session_id havenRex) \<and>
   register exampleTerrain exampleHash 1000 ''id-new'' exampleRnd ''s2'' ''Rex'' None havenWorld
     = (havenWorld, Inr (havenZed, False))"
  by code_simp

text \<open>
  Claim C6, amended. Let the name be valid and belong to an existing agent, and let the
  caller's session own no agent yet. If the existing agent has a live session, the call
  is rejected and the state is unchanged. If it has no live session and no stored
  credential, the call succeeds as a reconnect: the row found under the name now holds
  the caller's session. If it has a stored credential, the call succeeds exactly when,
  in addition to there being no live session, a secret is supplied whose hash equals
  the stored hash.
\<close>

theorem register_existing_name:
  assumes "2 \<le> length name" "length name \<le> 20" "list_all nameChar name"
      and "getAgentBySession w sessionId = None"
      and "getAgentByName w name = Some byName"
  shows "(truthy (a_session_id byName) \<longrightarrow>
            (\<exists>e. register terr H now uuid rnd sessionId name secret w = (w, Inl e)))
       \<and> (\<not> truthy (a_session_id byName) \<and> \<not> truthy (a_secret_hash byName) \<longrightarrow>
            (\<exists>byName'. byName' = byName\<lparr>a_session_id := Some sessionId, a_last_action_at := now\<rparr> \<and>
               register terr H now uuid rnd sessionId name secret w
                 = (updateAgent byName' w, Inr (byName', True)) \<and>
               getAgentByName (updateAgent byName' w) name = Some byName'))
       \<and> (truthy (a_secret_hash byName) \<longrightarrow>
            ((\<exists>r. snd (register terr H now uuid rnd sessionId name secret w) = Inr r)
               \<longleftrightarrow> \<not> truthy (a_session_id byName) \<and> truthy secret \<and>
                   map_option H secret = a_secret_hash byName))"
proof -
  have n: "name \<noteq> []" using assms(1) by auto
  have u: "updateRow (byName\<lparr>a_session_id := Some sessionId, a_last_action_at := now\<rparr>) byName
             = byName\<lparr>a_session_id := Some sessionId, a_last_action_at := now\<rparr>"
    by (simp add: updateRow_def)
  show ?thesis
    using assms n
    by (auto simp: register_def Let_def getAgentByName_updateAgent u)
qed

lemma offlineByName: "getAgentByName offlineWorld ''Rex'' = Some (exampleAgent\<lparr>a_session_id := None\<rparr>)"
  by code_simp

lemma offlineBySession: "getAgentBySession offlineWorld ''s9'' = None"
  by code_simp

theorem register_existing_name_witness:
  "getAgentBySession offlineWorld ''s9'' = None \<and>
   getAgentByName offlineWorld ''Rex'' = Some (exampleAgent\<lparr>a_session_id := None\<rparr>) \<and>
   register exampleTerrain exampleHash 1000 ''id-new'' exampleRnd ''s9'' ''Rex'' None offlineWorld
     = (updateAgent (exampleAgent\<lparr>a_session_id := Some ''s9'', a_last_action_at := 1000\<rparr>) offlineWorld,
        Inr (exampleAgent\<lparr>a_session_id := Some ''s9'', a_last_action_at := 1000\<rparr>, True))"
  using register_existing_name [OF _ _ _ offlineBySession offlineByName,
          of exampleTerrain exampleHash 1000 "''id-new''" exampleRnd None]
        offlineBySession offlineByName
  by (simp add: nameChar_def exampleAgent_def)

text \<open>
  Claim C9. On the model of \<open>renameAgent\<close> written from the specification: for an
  existing agent, the new name is refused with the length error or the character error
  exactly when \<open>register\<close> refuses it with that error; a new name carried by another
  agent is refused and the state is unchanged; otherwise the call succeeds, whatever the
  agent's cooldowns, and reports the old and the new name, and the new state differs from
  the old one only in the \<open>name\<close> of the rows with that id.
\<close>

theorem renameAgent_spec:
  assumes "getAgentById w agentId = Some agent"
  shows "(renameAgent agentId newName w = (w, Inl NameLength)
            \<longleftrightarrow> register terr H now uuid rnd sessionId newName secret w = (w, Inl NameLength))
       \<and> (renameAgent agentId newName w = (w, Inl NameChars)
            \<longleftrightarrow> register terr H now uuid rnd sessionId newName secret w = (w, Inl NameChars))
       \<and> (list_ex (\<lambda>r. a_name r = newName \<and> a_id r \<noteq> agentId) (agents w)
            \<longrightarrow> (\<exists>e. renameAgent agentId newName w = (w, Inl e)))
       \<and> (2 \<le> length newName \<and> length newName \<le> 20 \<and> list_all nameChar newName \<and>
          \<not> list_ex (\<lambda>r. a_name r = newName \<and> a_id r \<noteq> agentId) (agents w)
            \<longrightarrow> (\<exists>w'. renameAgent agentId newName w = (w', Inr (a_name agent, newName)) \<and>
                  agents w' = map (\<lambda>r. if a_id r = agentId then r\<lparr>a_name := newName\<rparr> else r) (agents w) \<and>
                  resources w' = resources w \<and> events w' = events w \<and>
                  getAgentById w' agentId = Some (agent\<lparr>a_name := newName\<rparr>)))"
proof (intro conjI)
  show "renameAgent agentId newName w = (w, Inl NameLength)
            \<longleftrightarrow> register terr H now uuid rnd sessionId newName secret w = (w, Inl NameLength)"
    using assms
    by (auto simp: renameAgent_def register_def Let_def insertAgent_def
             split: option.splits if_splits prod.splits)
  show "renameAgent agentId newName w = (w, Inl NameChars)
            \<longleftrightarrow> register terr H now uuid rnd sessionId newName secret w = (w, Inl NameChars)"
    using assms
    by (auto simp: renameAgent_def register_def Let_def insertAgent_def
             split: option.splits if_splits prod.splits)
  show "list_ex (\<lambda>r. a_name r = newName \<and> a_id r \<noteq> agentId) (agents w)
            \<longrightarrow> (\<exists>e. renameAgent agentId newName w = (w, Inl e))"
    using assms by (simp add: renameAgent_def)
  have g: "find (\<lambda>a. a_id a = agentId) (map (\<lambda>r. if a_id r = agentId then r\<lparr>a_name := newName\<rparr> else r) xs)
             = map_option (\<lambda>r. r\<lparr>a_name := newName\<rparr>) (find (\<lambda>a. a_id a = agentId) xs)" for xs
    by (induction xs) simp_all
  show "2 \<le> length newName \<and> length newName \<le> 20 \<and> list_all nameChar newName \<and>
          \<not> list_ex (\<lambda>r. a_name r = newName \<and> a_id r \<noteq> agentId) (agents w)
            \<longrightarrow> (\<exists>w'. renameAgent agentId newName w = (w', Inr (a_name agent, newName)) \<and>
                  agents w' = map (\<lambda>r. if a_id r = agentId then r\<lparr>a_name := newName\<rparr> else r) (agents w) \<and>
                  resources w' = resources w \<and> events w' = events w \<and>
                  getAgentById w' agentId = Some (agent\<lparr>a_name := newName\<rparr>))"
    using assms by (auto simp: renameAgent_def getAgentById_def g)
qed

lemma renameGet: "getAgentById havenWorld ''id-zed'' = Some havenZed"
  by code_simp

theorem renameAgent_spec_witness:
  "list_ex (\<lambda>r. a_name r = ''Rex'' \<and> a_id r \<noteq> ''id-zed'') (agents havenWorld) \<and>
   (\<exists>e. renameAgent ''id-zed'' ''Rex'' havenWorld = (havenWorld, Inl e)) \<and>
   \<not> list_ex (\<lambda>r. a_name r = ''Zed_2'' \<and> a_id r \<noteq> ''id-zed'') (agents havenWorld) \<and>
   list_all nameChar ''Zed_2'' \<and>
   (\<exists>w'. renameAgent ''id-zed'' ''Zed_2'' havenWorld = (w', Inr (''Zed'', ''Zed_2'')) \<and>
         getAgentById w' ''id-zed'' = Some (havenZed\<lparr>a_name := ''Zed_2''\<rparr>))"
proof -
  have c: "list_ex (\<lambda>r. a_name r = ''Rex'' \<and> a_id r \<noteq> ''id-zed'') (agents havenWorld)"
    by code_simp
  have n: "\<not> list_ex (\<lambda>r. a_name r = ''Zed_2'' \<and> a_id r \<noteq> ''id-zed'') (agents havenWorld)"
    by code_simp
  have v: "list_all nameChar ''Zed_2''" by code_simp
  have z: "a_name havenZed = ''Zed''" by (simp add: havenZed_def)
  note r = renameAgent_spec [OF renameGet, where terr = exampleTerrain and H = exampleHash
             and now = 0 and uuid = "''id-new''" and rnd = exampleRnd and sessionId = "''s3''"
             and secret = None]
  from r [where newName = "''Rex''"] c
  have 1: "\<exists>e. renameAgent ''id-zed'' ''Rex'' havenWorld = (havenWorld, Inl e)" by blast
  from r [where newName = "''Zed_2''"] n v z
  have 2: "\<exists>w'. renameAgent ''id-zed'' ''Zed_2'' havenWorld = (w', Inr (''Zed'', ''Zed_2'')) \<and>
         getAgentById w' ''id-zed'' = Some (havenZed\<lparr>a_name := ''Zed_2''\<rparr>)" by auto
  from 1 2 c n v show ?thesis by blast
qed

lemma resources_updateAgent [simp]: "resources (updateAgent a w) = resources w"
  by (simp add: updateAgent_def)

lemma resources_emitEvent [simp]: "resources (emitEvent ev w) = resources w"
  by (simp add: emitEvent_def insertEvent_def)

lemma resources_emitEvents [simp]: "resources (emitEvents evs w) = resources w"
  unfolding emitEvents_def by (induction evs arbitrary: w) simp_all

lemma agents_emitEvent [simp]: "agents (emitEvent ev w) = agents w"
  by (simp add: emitEvent_def insertEvent_def)

lemma agents_emitEvents [simp]: "agents (emitEvents evs w) = agents w"
  unfolding emitEvents_def by (induction evs arbitrary: w) simp_all

lemma spawnOneResource_count:
  "spawnOneResource terr now sr w = Inr (w', b) \<Longrightarrow>
     getResourceCount w' = getResourceCount w + (if b then 1 else 0)"
  by (auto simp: spawnOneResource_def Let_def insertResource_def getResourceCount_def
           split: option.splits prod.splits sum.splits if_splits)

lemma spawnLoop_bounded:
  "getResourceCount w \<le> MAX_RESOURCES_ON_MAP \<Longrightarrow>
     getResourceCount (fst (spawnLoop terr now srs i n w)) \<le> MAX_RESOURCES_ON_MAP"
proof (induction n arbitrary: i w)
  case 0
  then show ?case by simp
next
  case (Suc n)
  show ?case
  proof (cases "getResourceCount w \<ge> MAX_RESOURCES_ON_MAP")
    case True
    with Suc.prems show ?thesis by simp
  next
    case False
    show ?thesis
    proof (cases "spawnOneResource terr now (srs i) w")
      case (Inl e)
      with False Suc.prems show ?thesis by simp
    next
      case (Inr p)
      obtain w' b where p: "p = (w', b)" by (cases p)
      from spawnOneResource_count [OF Inr [unfolded p]] False
      have "getResourceCount w' \<le> MAX_RESOURCES_ON_MAP" by (simp split: if_splits)
      from Suc.IH [OF this, of "Suc i"] False Inr p show ?thesis
        by (simp add: split_def)
    qed
  qed
qed

lemma spawnLoop_trace:
  "length (snd (spawnLoop terr now srs i n w)) \<le> n"
  by (induction n arbitrary: i w) (auto simp: split_def le_SucI split: sum.splits)

lemma spawnLoop_full:
  "getResourceCount w + n \<le> MAX_RESOURCES_ON_MAP \<Longrightarrow>
     length (snd (spawnLoop terr now srs i n w)) = n
     \<or> (snd (spawnLoop terr now srs i n w) \<noteq> [] \<and> isl (last (snd (spawnLoop terr now srs i n w))))"
proof (induction n arbitrary: i w)
  case 0
  then show ?case by simp
next
  case (Suc n)
  from Suc.prems have lt: "\<not> getResourceCount w \<ge> MAX_RESOURCES_ON_MAP" by simp
  show ?case
  proof (cases "spawnOneResource terr now (srs i) w")
    case (Inl e)
    with lt show ?thesis by simp
  next
    case (Inr p)
    obtain w' b where p: "p = (w', b)" by (cases p)
    from spawnOneResource_count [OF Inr [unfolded p]] Suc.prems
    have "getResourceCount w' + n \<le> MAX_RESOURCES_ON_MAP" by (simp split: if_splits)
    from Suc.IH [OF this, of "Suc i"] lt Inr p show ?thesis
      by (auto simp: split_def)
  qed
qed

lemma tickResources_bounded:
  "getResourceCount w \<le> MAX_RESOURCES_ON_MAP \<Longrightarrow>
     getResourceCount (fst (tickResources terr now srs w)) \<le> MAX_RESOURCES_ON_MAP"
  by (simp add: tickResources_def Let_def spawnLoop_bounded)

lemma tickResources_trace:
  "(getResourceCount w < MIN_RESOURCES_ON_MAP \<longrightarrow>
       length (snd (tickResources terr now srs w)) = RESOURCE_BURST_COUNT
       \<or> (snd (tickResources terr now srs w) \<noteq> [] \<and> isl (last (snd (tickResources terr now srs w)))))
   \<and> (\<not> getResourceCount w < MIN_RESOURCES_ON_MAP \<longrightarrow> length (snd (tickResources terr now srs w)) \<le> 1)"
proof (intro conjI impI)
  assume lo: "getResourceCount w < MIN_RESOURCES_ON_MAP"
  then have "getResourceCount w + RESOURCE_BURST_COUNT \<le> MAX_RESOURCES_ON_MAP"
    by (simp add: MIN_RESOURCES_ON_MAP_def RESOURCE_BURST_COUNT_def MAX_RESOURCES_ON_MAP_def)
  from spawnLoop_full [OF this, of terr now srs 0] lo
  show "length (snd (tickResources terr now srs w)) = RESOURCE_BURST_COUNT
       \<or> (snd (tickResources terr now srs w) \<noteq> [] \<and> isl (last (snd (tickResources terr now srs w))))"
    by (simp add: tickResources_def Let_def MIN_RESOURCES_ON_MAP_def MAX_RESOURCES_ON_MAP_def)
next
  assume "\<not> getResourceCount w < MIN_RESOURCES_ON_MAP"
  then show "length (snd (tickResources terr now srs w)) \<le> 1"
    using spawnLoop_trace [of terr now srs 0 1 w]
    by (simp add: tickResources_def Let_def del: spawnLoop.simps One_nat_def)
qed

lemma resources_register: "resources (fst (register terr H now uuid rnd sessionId name secret w)) = resources w"
  by (auto simp: register_def Let_def split_def insertAgent_def split: option.splits sum.splits)

lemma resources_move: "resources (fst (move terr now agentId direction w)) = resources w"
  by (auto simp: move_def Let_def split: option.splits DirLookup.splits)

lemma resources_attack: "resources (fst (attack now roll agentId direction w)) = resources w"
  by (auto simp: attack_def Let_def split_def split: option.splits DirLookup.splits)

lemma resources_gather:
  "length (resources (fst (gather now agentId w))) \<le> length (resources w)"
  by (auto simp: gather_def Let_def split_def deleteResource_def split: option.splits)

lemma resources_communicate: "resources (fst (communicate now agentId message w)) = resources w"
  by (auto simp: communicate_def Let_def split: option.splits)

lemma resources_levelUpSkill: "resources (fst (levelUpSkill agentId skill w)) = resources w"
  by (auto simp: levelUpSkill_def Let_def split: option.splits)

lemma resources_useSkill: "resources (fst (useSkill now roll agentId skillName direction w)) = resources w"
  by (auto simp: useSkill_def Let_def split_def split: option.splits DirLookup.splits)

lemma resources_respawnStep: "resources (respawnStep terr now rnd agent w) = resources w"
  by (auto simp: respawnStep_def Let_def split_def)

lemma resources_tickRespawns: "resources (tickRespawns terr now rnds w) = resources w"
proof -
  have "resources (tickRespawnsLoop terr now rnds k xs w0) = resources w0" for k xs w0
    by (induction xs arbitrary: k w0) (simp_all add: resources_respawnStep)
  then show ?thesis by (simp add: tickRespawns_def)
qed

lemma resources_tickInactivity: "resources (tickInactivity now w) = resources w"
proof -
  have "resources (fold (inactivityStep now) xs w0) = resources w0" for xs w0
    by (induction xs arbitrary: w0) (simp_all add: inactivityStep_def Let_def)
  then show ?thesis by (simp add: tickInactivity_def)
qed

lemma resources_disconnectSession: "resources (disconnectSession now sessionId w) = resources w"
  by (simp add: disconnectSession_def Let_def split: option.splits)

lemma resources_reconnectAgent:
  "resources (fst (reconnectAgent H now sessionId agentName secret w)) = resources w"
  by (simp add: reconnectAgent_def Let_def split: option.splits)

lemma tick_bounded:
  assumes "getResourceCount w \<le> MAX_RESOURCES_ON_MAP"
  shows "getResourceCount (tick terr now rnds srs w) \<le> MAX_RESOURCES_ON_MAP"
proof -
  have "getResourceCount (tickRespawns terr now rnds w) \<le> MAX_RESOURCES_ON_MAP"
    using assms by (simp add: getResourceCount_def resources_tickRespawns)
  from tickResources_bounded [OF this, of terr now srs]
  show ?thesis
    by (simp add: tick_def Let_def split_def getResourceCount_def resources_tickInactivity)
qed

lemma exec_bounded:
  assumes "getResourceCount w \<le> MAX_RESOURCES_ON_MAP"
  shows "getResourceCount (exec terr H c w) \<le> MAX_RESOURCES_ON_MAP"
proof (cases c)
  case (GatherCmd now agentId)
  with assms resources_gather [of now agentId w] show ?thesis
    by (simp add: getResourceCount_def)
next
  case (TickCmd now rnds srs)
  with tick_bounded [OF assms] show ?thesis by simp
qed (use assms in \<open>simp_all add: getResourceCount_def resources_register resources_move
       resources_attack resources_communicate resources_levelUpSkill resources_useSkill
       resources_disconnectSession resources_reconnectAgent\<close>)

lemma run_bounded:
  "getResourceCount w \<le> MAX_RESOURCES_ON_MAP \<Longrightarrow>
     getResourceCount (run terr H cmds w) \<le> MAX_RESOURCES_ON_MAP"
  unfolding run_def by (induction cmds arbitrary: w) (simp_all add: exec_bounded)

text \<open>
  Claim C7. From a state with at most 80 resources, no sequence of ticks and player
  commands leads to a state with more than 80. In every tick, \<open>tickResources\<close> calls
  \<open>spawnOneResource\<close> 8 times when the count is below 20 (unless an insert throws, which
  ends the tick at that call) and at most once otherwise.
\<close>

theorem resource_population_bounded:
  assumes "getResourceCount w \<le> MAX_RESOURCES_ON_MAP"
  shows "getResourceCount (run terr H cmds w) \<le> MAX_RESOURCES_ON_MAP
       \<and> getResourceCount (fst (tickResources terr now srs w)) \<le> MAX_RESOURCES_ON_MAP
       \<and> (getResourceCount w < MIN_RESOURCES_ON_MAP \<longrightarrow>
            length (snd (tickResources terr now srs w)) = RESOURCE_BURST_COUNT
            \<or> (snd (tickResources terr now srs w) \<noteq> [] \<and> isl (last (snd (tickResources terr now srs w)))))
       \<and> (\<not> getResourceCount w < MIN_RESOURCES_ON_MAP \<longrightarrow>
            length (snd (tickResources terr now srs w)) \<le> 1)"
  using run_bounded [OF assms] tickResources_bounded [OF assms] tickResources_trace
  by blast

lemma exampleTick:
  "getResourceCount (run exampleTerrain exampleHash [TickCmd 0 (\<lambda>k. exampleRnd) exampleSpawn] emptyWorld) = 8"
  by code_simp

lemma exampleTrace:
  "snd (tickResources exampleTerrain 0 exampleSpawn emptyWorld) = replicate 8 (Inr True)"
  by code_simp

theorem resource_population_bounded_witness:
  "getResourceCount emptyWorld \<le> MAX_RESOURCES_ON_MAP \<and>
   getResourceCount emptyWorld < MIN_RESOURCES_ON_MAP \<and>
   getResourceCount (run exampleTerrain exampleHash [TickCmd 0 (\<lambda>k. exampleRnd) exampleSpawn] emptyWorld) = 8 \<and>
   8 \<le> MAX_RESOURCES_ON_MAP \<and>
   length (snd (tickResources exampleTerrain 0 exampleSpawn emptyWorld)) = RESOURCE_BURST_COUNT"
proof -
  have h: "getResourceCount emptyWorld \<le> MAX_RESOURCES_ON_MAP"
    by (simp add: getResourceCount_def emptyWorld_def)
  have l: "getResourceCount emptyWorld < MIN_RESOURCES_ON_MAP"
    by (simp add: getResourceCount_def emptyWorld_def MIN_RESOURCES_ON_MAP_def)
  from resource_population_bounded [OF h, of exampleTerrain exampleHash
         "[TickCmd 0 (\<lambda>k. exampleRnd) exampleSpawn]" 0 exampleSpawn] h l
  show ?thesis
    by (simp add: exampleTick exampleTrace)
qed

subsection \<open>Single occupancy\<close>

lemma updateRow_place:
  "a_x (updateRow a r) = (if a_id r = a_id a then a_x a else a_x r)"
  "a_y (updateRow a r) = (if a_id r = a_id a then a_y a else a_y r)"
  "a_alive (updateRow a r) = (if a_id r = a_id a then a_alive a else a_alive r)"
  by (simp_all add: updateRow_def)

lemma uniqueIds_updateAgent [simp]: "uniqueIds (updateAgent a w) = uniqueIds w"
  by (simp add: uniqueIds_def updateAgent_def comp_def)

lemma length_agents_updateAgent [simp]: "length (agents (updateAgent a w)) = length (agents w)"
  by (simp add: updateAgent_def)

lemma singleOccupancy_updateAgent:
  assumes "singleOccupancy w"
      and "a_alive a' \<Longrightarrow> \<forall>r \<in> set (agents w). a_alive r \<and> a_x r = a_x a' \<and> a_y r = a_y a' \<longrightarrow> a_id r = a_id a'"
  shows "singleOccupancy (updateAgent a' w)"
  unfolding singleOccupancy_def
proof (intro ballI impI)
  fix u v
  assume u: "u \<in> set (agents (updateAgent a' w))" and v: "v \<in> set (agents (updateAgent a' w))"
    and h: "a_alive u \<and> a_alive v \<and> a_x u = a_x v \<and> a_y u = a_y v"
  from u obtain r1 where r1: "r1 \<in> set (agents w)" "u = updateRow a' r1"
    by (auto simp: updateAgent_def)
  from v obtain r2 where r2: "r2 \<in> set (agents w)" "v = updateRow a' r2"
    by (auto simp: updateAgent_def)
  consider (both) "a_id r1 = a_id a'" "a_id r2 = a_id a'"
    | (left) "a_id r1 = a_id a'" "a_id r2 \<noteq> a_id a'"
    | (right) "a_id r1 \<noteq> a_id a'" "a_id r2 = a_id a'"
    | (none) "a_id r1 \<noteq> a_id a'" "a_id r2 \<noteq> a_id a'"
    by blast
  then show "a_id u = a_id v"
  proof cases
    case both
    then show ?thesis by (simp add: r1 r2)
  next
    case left
    with h r1 r2 have "a_alive a'" "a_alive r2" "a_x r2 = a_x a'" "a_y r2 = a_y a'"
      by (simp_all add: updateRow_place)
    with assms(2) r2(1) left show ?thesis by blast
  next
    case right
    with h r1 r2 have "a_alive a'" "a_alive r1" "a_x r1 = a_x a'" "a_y r1 = a_y a'"
      by (simp_all add: updateRow_place)
    with assms(2) r1(1) right show ?thesis by blast
  next
    case none
    with h r1 r2 have "a_alive r1 \<and> a_alive r2 \<and> a_x r1 = a_x r2 \<and> a_y r1 = a_y r2"
      by (simp add: updateRow_place)
    with assms(1) r1(1) r2(1) have "a_id r1 = a_id r2" unfolding singleOccupancy_def by blast
    then show ?thesis by (simp add: r1 r2)
  qed
qed

lemma singleOccupancy_samePlace:
  assumes "singleOccupancy w" "r0 \<in> set (agents w)" "samePlace a' r0"
  shows "singleOccupancy (updateAgent a' w)"
proof (rule singleOccupancy_updateAgent [OF assms(1)])
  assume "a_alive a'"
  with assms(3) have "a_alive r0" "a_x r0 = a_x a'" "a_y r0 = a_y a'" "a_id r0 = a_id a'"
    by (simp_all add: samePlace_def)
  with assms(1,2) show "\<forall>r \<in> set (agents w). a_alive r \<and> a_x r = a_x a' \<and> a_y r = a_y a' \<longrightarrow> a_id r = a_id a'"
    unfolding singleOccupancy_def by metis
qed

lemma engineInv_samePlace:
  assumes "engineInv w" "r0 \<in> set (agents w)" "samePlace a' r0"
  shows "engineInv (updateAgent a' w)"
  using assms singleOccupancy_samePlace [of w r0 a'] by (simp add: engineInv_def)

lemma engineInv_agents_eq: "agents w' = agents w \<Longrightarrow> engineInv w' = engineInv w"
  by (simp add: engineInv_def uniqueIds_def singleOccupancy_def)

lemma engineInv_emitEvent [simp]: "engineInv (emitEvent ev w) = engineInv w"
  by (rule engineInv_agents_eq) simp

lemma engineInv_emitEvents [simp]: "engineInv (emitEvents evs w) = engineInv w"
  by (rule engineInv_agents_eq) simp

lemma agents_deleteResource [simp]: "agents (deleteResource i w) = agents w"
  by (simp add: deleteResource_def)

lemma engineInv_deleteResource [simp]: "engineInv (deleteResource i w) = engineInv w"
  by (rule engineInv_agents_eq) simp

lemma getAgentAt_None: "getAgentAt w x y = None \<longleftrightarrow> (\<forall>r \<in> set (agents w). \<not> (a_alive r \<and> a_x r = x \<and> a_y r = y))"
  by (auto simp: getAgentAt_def find_None_iff)

lemma getAgentAt_SomeD:
  "getAgentAt w x y = Some t \<Longrightarrow> t \<in> set (agents w) \<and> a_alive t \<and> a_x t = x \<and> a_y t = y"
  by (auto simp: getAgentAt_def find_Some_iff)

lemma getAgentBySession_SomeD: "getAgentBySession w s = Some a \<Longrightarrow> a \<in> set (agents w)"
  by (auto simp: getAgentBySession_def find_Some_iff)

lemma addXpLoop_frame:
  "addXpLoop now a = (a', evs) \<Longrightarrow>
     a_id a' = a_id a \<and> a_x a' = a_x a \<and> a_y a' = a_y a \<and> a_alive a' = a_alive a"
proof (induction now a arbitrary: a' evs rule: addXpLoop.induct)
  case (1 now agent)
  show ?case
  proof (cases "a_xp agent \<ge> a_xp_to_next agent")
    case False
    with "1.prems" show ?thesis by (simp add: addXpLoop.simps)
  next
    case True
    obtain b evs' where r: "addXpLoop now (levelUp agent) = (b, evs')" by fastforce
    with True "1.prems" have e: "a' = b"
      by (simp add: addXpLoop.simps [of now agent])
    from "1.IH" [OF True r] e show ?thesis by (simp add: levelUp_fields)
  qed
qed

lemma addXp_frame:
  "a_id (fst (addXp now a amount)) = a_id a"
  "a_x (fst (addXp now a amount)) = a_x a"
  "a_y (fst (addXp now a amount)) = a_y a"
  "a_alive (fst (addXp now a amount)) = a_alive a"
proof -
  obtain a' evs where r: "addXpLoop now (a\<lparr>a_xp := a_xp a + amount\<rparr>) = (a', evs)" by fastforce
  from addXpLoop_frame [OF r] r
  show "a_id (fst (addXp now a amount)) = a_id a"
  "a_x (fst (addXp now a amount)) = a_x a"
  "a_y (fst (addXp now a amount)) = a_y a"
  "a_alive (fst (addXp now a amount)) = a_alive a"
    by (simp_all add: addXp_def Let_def)
qed

lemma applyCooldown_frame [simp]:
  "a_id (applyCooldown now a action) = a_id a"
  "a_x (applyCooldown now a action) = a_x a"
  "a_y (applyCooldown now a action) = a_y a"
  "a_alive (applyCooldown now a action) = a_alive a"
  by (simp_all add: applyCooldown_def)

lemma DIRECTIONS_nonzero: "DIRECTIONS k = Vec dx dy \<Longrightarrow> dx \<noteq> 0 \<or> dy \<noteq> 0"
  by (auto simp: DIRECTIONS_def split: if_splits)

lemma engineInv_free_cell:
  assumes "engineInv w" "getAgentAt w (a_x a') (a_y a') = None"
  shows "engineInv (updateAgent a' w)"
proof -
  from assms(2) have "\<forall>r \<in> set (agents w). a_alive r \<and> a_x r = a_x a' \<and> a_y r = a_y a' \<longrightarrow> a_id r = a_id a'"
    by (auto simp: getAgentAt_None)
  with assms(1) show ?thesis
    by (simp add: engineInv_def singleOccupancy_updateAgent)
qed

lemma engineInv_move:
  assumes "engineInv w"
  shows "engineInv (fst (move terr now agentId direction w))"
proof (cases "snd (move terr now agentId direction w)")
  case (Inl e)
  then have "fst (move terr now agentId direction w) = w"
    by (auto simp: move_def Let_def split: option.splits DirLookup.splits if_splits)
  with assms show ?thesis by simp
next
  case (Inr res)
  then have m: "move terr now agentId direction w = (fst (move terr now agentId direction w), Inr res)"
    by (metis prod.collapse)
  from move_success [OF m] obtain agent dx dy ev where
    g: "getAgentAt w (a_x agent + dx) (a_y agent + dy) = None"
    and w': "fst (move terr now agentId direction w) = emitEvent ev (updateAgent
              (if terr (a_y agent + dy) (a_x agent + dx) = WATER
               then agent\<lparr>a_x := a_x agent + dx, a_y := a_y agent + dy,
                      a_cooldowns := (a_cooldowns agent)\<lparr>cd_move := now + getCooldown Move agent * 2\<rparr>\<rparr>
               else agent\<lparr>a_x := a_x agent + dx, a_y := a_y agent + dy,
                      a_cooldowns := (a_cooldowns agent)\<lparr>cd_move := now + getCooldown Move agent\<rparr>,
                      a_last_action_at := now\<rparr>) w)"
    by auto
  define a2 where "a2 = (if terr (a_y agent + dy) (a_x agent + dx) = WATER
               then agent\<lparr>a_x := a_x agent + dx, a_y := a_y agent + dy,
                      a_cooldowns := (a_cooldowns agent)\<lparr>cd_move := now + getCooldown Move agent * 2\<rparr>\<rparr>
               else agent\<lparr>a_x := a_x agent + dx, a_y := a_y agent + dy,
                      a_cooldowns := (a_cooldowns agent)\<lparr>cd_move := now + getCooldown Move agent\<rparr>,
                      a_last_action_at := now\<rparr>)"
  have a2: "a_x a2 = a_x agent + dx" "a_y a2 = a_y agent + dy" by (simp_all add: a2_def)
  from g a2 have "getAgentAt w (a_x a2) (a_y a2) = None" by simp
  from engineInv_free_cell [OF assms this] show ?thesis
    unfolding w' a2_def [symmetric] by simp
qed

lemma engineInv_two:
  assumes "engineInv w" "agent \<in> set (agents w)" "target \<in> set (agents w)"
      and "a_x agent \<noteq> a_x target \<or> a_y agent \<noteq> a_y target"
      and "a_alive target" "samePlace a' agent" "samePlace t' target"
  shows "engineInv (updateAgent t' (updateAgent a' w))"
proof -
  have 1: "engineInv (updateAgent a' w)"
    using assms(1,2,6) by (rule engineInv_samePlace)
  have "\<forall>r \<in> set (agents (updateAgent a' w)).
          a_alive r \<and> a_x r = a_x t' \<and> a_y r = a_y t' \<longrightarrow> a_id r = a_id t'"
  proof (intro ballI impI)
    fix r assume r: "r \<in> set (agents (updateAgent a' w))"
      and h: "a_alive r \<and> a_x r = a_x t' \<and> a_y r = a_y t'"
    from r obtain r0 where r0: "r0 \<in> set (agents w)" "r = updateRow a' r0"
      by (auto simp: updateAgent_def)
    show "a_id r = a_id t'"
    proof (cases "a_id r0 = a_id a'")
      case True
      with h r0 assms(4,6,7) show ?thesis
        by (auto simp: updateRow_place samePlace_def)
    next
      case False
      with h r0 assms(7) have "a_alive r0 \<and> a_x r0 = a_x target \<and> a_y r0 = a_y target"
        by (simp add: updateRow_place samePlace_def)
      with assms(1,3,5) r0(1) have "a_id r0 = a_id target"
        unfolding engineInv_def singleOccupancy_def by blast
      with assms(7) r0 show ?thesis by (simp add: samePlace_def)
    qed
  qed
  with 1 show ?thesis
    by (simp add: engineInv_def singleOccupancy_updateAgent)
qed

lemma engineInv_attack:
  assumes "engineInv w"
  shows "engineInv (fst (attack now roll agentId direction w))"
proof (cases "getAgentById w agentId")
  case None
  with assms show ?thesis by (simp add: attack_def)
next
  case (Some agent)
  note ag = getAgentById_SomeD [OF Some]
  show ?thesis
  proof (cases "DIRECTIONS (toLowerCase direction)")
    case (Vec dx dy)
    show ?thesis
    proof (cases "getAgentAt w (a_x agent + dx) (a_y agent + dy)")
      case None
      with assms Some Vec show ?thesis
        by (simp add: attack_def Let_def split: option.splits)
    next
      case (Some target)
      note tg = getAgentAt_SomeD [OF Some]
      from DIRECTIONS_nonzero [OF Vec] tg
      have diff: "a_x agent \<noteq> a_x target \<or> a_y agent \<noteq> a_y target" by auto
      have two: "engineInv (updateAgent t' (updateAgent a' w0))"
        if "agents w0 = agents w" "samePlace a' agent" "samePlace t' target" for a' t' w0
      proof -
        have i: "engineInv w0" using assms engineInv_agents_eq [OF that(1)] by simp
        have m: "agent \<in> set (agents w0)" "target \<in> set (agents w0)"
          using ag tg that(1) by simp_all
        have al: "a_alive target" using tg by simp
        show ?thesis by (rule engineInv_two [OF i m diff al that(2) that(3)])
      qed
      show ?thesis
        using \<open>getAgentById w agentId = Some agent\<close> Vec Some
        apply (simp add: attack_def Let_def split_def assms split: option.splits)
        apply (intro conjI impI allI two)
        apply (simp_all add: samePlace_def addXp_frame)
        done
    qed
  next
    case Undefined
    with assms Some show ?thesis by (simp add: attack_def Let_def split: option.splits)
  next
    case NotIterable
    with assms Some show ?thesis by (simp add: attack_def Let_def split: option.splits)
  qed
qed

lemma engineInv_one:
  assumes "engineInv w" "agents w0 = agents w" "agent \<in> set (agents w)" "samePlace a' agent"
  shows "engineInv (updateAgent a' w0)"
proof -
  have i: "engineInv w0" using assms(1) engineInv_agents_eq [OF assms(2)] by simp
  have m: "agent \<in> set (agents w0)" using assms(2,3) by simp
  show ?thesis by (rule engineInv_samePlace [OF i m assms(4)])
qed

lemma engineInv_gather:
  assumes "engineInv w"
  shows "engineInv (fst (gather now agentId w))"
proof (cases "getAgentById w agentId")
  case None
  with assms show ?thesis by (simp add: gather_def)
next
  case (Some agent)
  note ag = getAgentById_SomeD [OF Some]
  have one: "engineInv (updateAgent a' w0)" if "agents w0 = agents w" "samePlace a' agent" for a' w0
    using assms that(1) _ that(2) by (rule engineInv_one) (simp add: ag)
  show ?thesis
    using Some
    apply (simp add: gather_def Let_def split_def assms split: option.splits)
    apply (intro conjI impI allI one)
    apply (simp_all add: samePlace_def addXp_frame)
    done
qed

lemma engineInv_communicate:
  assumes "engineInv w"
  shows "engineInv (fst (communicate now agentId message w))"
proof (cases "getAgentById w agentId")
  case None
  with assms show ?thesis by (simp add: communicate_def)
next
  case (Some agent)
  note ag = getAgentById_SomeD [OF Some]
  have one: "engineInv (updateAgent a' w0)" if "agents w0 = agents w" "samePlace a' agent" for a' w0
    using assms that(1) _ that(2) by (rule engineInv_one) (simp add: ag)
  show ?thesis
    using Some
    apply (simp add: communicate_def Let_def split_def assms split: option.splits)
    apply (intro conjI impI allI one)
    apply (simp_all add: samePlace_def)
    done
qed

lemma engineInv_levelUpSkill:
  assumes "engineInv w"
  shows "engineInv (fst (levelUpSkill agentId skill w))"
proof (cases "getAgentById w agentId")
  case None
  with assms show ?thesis by (simp add: levelUpSkill_def)
next
  case (Some agent)
  note ag = getAgentById_SomeD [OF Some]
  have one: "engineInv (updateAgent a' w0)" if "agents w0 = agents w" "samePlace a' agent" for a' w0
    using assms that(1) _ that(2) by (rule engineInv_one) (simp add: ag)
  show ?thesis
    using Some
    apply (simp add: levelUpSkill_def Let_def split_def assms split: option.splits)
    apply (intro conjI impI allI one)
    apply (simp_all add: samePlace_def)
    done
qed

lemma engineInv_useSkill:
  assumes "engineInv w"
  shows "engineInv (fst (useSkill now roll agentId skillName direction w))"
proof (cases "getAgentById w agentId")
  case None
  with assms show ?thesis by (simp add: useSkill_def)
next
  case (Some agent)
  note ag = getAgentById_SomeD [OF Some]
  have one: "engineInv (updateAgent a' w0)" if "agents w0 = agents w" "samePlace a' agent" for a' w0
    using assms that(1) _ that(2) by (rule engineInv_one) (simp add: ag)
  have two: "engineInv (updateAgent t' (updateAgent a' w0))"
    if "DIRECTIONS k = Vec dx dy" "getAgentAt w (a_x agent + dx) (a_y agent + dy) = Some target"
       "agents w0 = agents w" "samePlace a' agent" "samePlace t' target" for a' t' w0 k dx dy target
  proof -
    note tg = getAgentAt_SomeD [OF that(2)]
    from DIRECTIONS_nonzero [OF that(1)] tg
    have diff: "a_x agent \<noteq> a_x target \<or> a_y agent \<noteq> a_y target" by auto
    have i: "engineInv w0" using assms engineInv_agents_eq [OF that(3)] by simp
    have m: "agent \<in> set (agents w0)" "target \<in> set (agents w0)"
      using ag tg that(3) by simp_all
    have al: "a_alive target" using tg by simp
    show ?thesis by (rule engineInv_two [OF i m diff al that(4) that(5)])
  qed
  note g = Some
  show ?thesis
  proof (cases direction)
    case None
    with g show ?thesis
      apply (simp add: useSkill_def Let_def split_def assms split: option.splits)
      apply (intro conjI impI allI; rule one; simp add: samePlace_def)
      done
  next
    case (Some d)
    note dir = this
    show ?thesis
    proof (cases "DIRECTIONS (toLowerCase d)")
      case (Vec dx dy)
      show ?thesis
      proof (cases "getAgentAt w (a_x agent + dx) (a_y agent + dy)")
        case None
        with g dir Vec show ?thesis
          apply (simp add: useSkill_def Let_def split_def assms split: option.split)
          apply (intro conjI impI allI; rule one; simp add: samePlace_def)
          done
      next
        case (Some target)
        note two' = two [OF Vec Some]
        from g dir Vec Some show ?thesis
          apply (simp add: useSkill_def Let_def split_def assms split: option.split)
          apply (intro conjI impI allI; (rule two' | rule one); simp add: samePlace_def addXp_frame)
          done
      qed
    next
      case Undefined
      with g dir show ?thesis
        apply (simp add: useSkill_def Let_def split_def assms split: option.split)
        apply (intro conjI impI allI; rule one; simp add: samePlace_def)
        done
    next
      case NotIterable
      with g dir show ?thesis
        apply (simp add: useSkill_def Let_def split_def assms split: option.split)
        apply (intro conjI impI allI; rule one; simp add: samePlace_def)
        done
    qed
  qed
qed

lemma distinct_scanCells: "distinct scanCells"
proof -
  have "distinct (concat (map (\<lambda>y. map (\<lambda>x. (x, y)) [1..48]) [1..48::int]))"
    by (rule distinct_concat) (auto simp: distinct_map inj_on_def)
  then show ?thesis by (simp add: scanCells_def MAP_WIDTH_def MAP_HEIGHT_def)
qed

lemma find_SomeD: "find P xs = Some x \<Longrightarrow> P x \<and> x \<in> set xs"
  by (induction xs) (auto split: if_splits)

lemma free_cell_exists:
  assumes "roomy terr" "length (agents w) \<le> MAX_AGENTS"
  shows "\<exists>c \<in> set scanCells. isPassable terr (fst c) (snd c) \<and> getAgentAt w (fst c) (snd c) = None"
proof (rule ccontr)
  assume "\<not> (\<exists>c \<in> set scanCells. isPassable terr (fst c) (snd c) \<and> getAgentAt w (fst c) (snd c) = None)"
  then have occ: "\<forall>c \<in> set scanCells. isPassable terr (fst c) (snd c) \<longrightarrow> getAgentAt w (fst c) (snd c) \<noteq> None"
    by simp
  let ?P = "filter (\<lambda>(x, y). isPassable terr x y) scanCells"
  have "set ?P \<subseteq> (\<lambda>a. (a_x a, a_y a)) ` set (agents w)"
  proof
    fix c assume "c \<in> set ?P"
    then have "c \<in> set scanCells" "isPassable terr (fst c) (snd c)" by (auto split: prod.splits)
    with occ obtain t where "getAgentAt w (fst c) (snd c) = Some t" by blast
    from getAgentAt_SomeD [OF this] show "c \<in> (\<lambda>a. (a_x a, a_y a)) ` set (agents w)"
      by (auto simp: image_iff intro!: bexI [of _ t])
  qed
  then have "card (set ?P) \<le> card ((\<lambda>a. (a_x a, a_y a)) ` set (agents w))"
    by (intro card_mono) simp_all
  also have "\<dots> \<le> card (set (agents w))" by (rule card_image_le) simp
  also have "\<dots> \<le> length (agents w)" by (rule card_length)
  finally have "card (set ?P) \<le> MAX_AGENTS" using assms(2) by simp
  moreover have "card (set ?P) = length ?P"
    by (rule distinct_card) (simp add: distinct_scanCells)
  ultimately show False using assms(1) by (simp add: roomy_def)
qed

lemma findSpawnPoint_free:
  assumes "roomy terr" "length (agents w) \<le> MAX_AGENTS"
  shows "getAgentAt w (fst (findSpawnPoint terr rnd w)) (snd (findSpawnPoint terr rnd w)) = None"
proof (cases "find (\<lambda>(x, y). isPassable terr x y \<and> getAgentAt w x y = None \<and> getResourceAt w x y = None)
             (map (spawnCandidate rnd) [0..<500])")
  case (Some p)
  from find_SomeD [OF this] have "getAgentAt w (fst p) (snd p) = None"
    by (auto split: prod.splits)
  with Some show ?thesis by (simp add: findSpawnPoint_def)
next
  case None
  note n1 = this
  show ?thesis
  proof (cases "find (\<lambda>(x, y). isPassable terr x y \<and> getAgentAt w x y = None) scanCells")
    case (Some p)
    from find_SomeD [OF this] have "getAgentAt w (fst p) (snd p) = None"
      by (auto split: prod.splits)
    with n1 Some show ?thesis by (simp add: findSpawnPoint_def)
  next
    case None
    from free_cell_exists [OF assms] obtain c where
      "c \<in> set scanCells" "isPassable terr (fst c) (snd c)" "getAgentAt w (fst c) (snd c) = None"
      by blast
    moreover from None have "\<not> (isPassable terr (fst c) (snd c) \<and> getAgentAt w (fst c) (snd c) = None)"
      if "c \<in> set scanCells" using that unfolding find_None_iff by (cases c) auto
    ultimately show ?thesis by blast
  qed
qed

lemma engineInv_insertAgent:
  assumes "engineInv w" "length (agents w) < MAX_AGENTS"
      and "getAgentAt w (a_x a) (a_y a) = None" "insertAgent a w = Inr w'"
  shows "engineInv w'"
proof -
  have nex: "\<not> (\<exists>r \<in> set (agents w). a_id r = a_id a \<or> a_name r = a_name a)"
    using assms(4) by (simp add: insertAgent_def split: if_splits)
  have w': "agents w' = agents w @ [a]"
    using assms(4) by (auto simp add: insertAgent_def split: if_splits)
  from nex have fresh: "a_id a \<notin> set (map a_id (agents w))" by auto
  have free: "\<not> (a_alive r \<and> a_x r = a_x a \<and> a_y r = a_y a)" if "r \<in> set (agents w)" for r
    using assms(3) that by (simp add: getAgentAt_None)
  have u: "uniqueIds w'" using assms(1) fresh by (simp add: engineInv_def uniqueIds_def w')
  have l: "length (agents w') \<le> MAX_AGENTS" using assms(2) by (simp add: w')
  have so: "singleOccupancy w" using assms(1) by (simp add: engineInv_def)
  have "singleOccupancy w'"
    unfolding singleOccupancy_def
  proof (intro ballI impI)
    fix u v
    assume u: "u \<in> set (agents w')" and v: "v \<in> set (agents w')"
      and h: "a_alive u \<and> a_alive v \<and> a_x u = a_x v \<and> a_y u = a_y v"
    have "u \<in> set (agents w) \<or> u = a" using u by (auto simp: w')
    moreover have "v \<in> set (agents w) \<or> v = a" using v by (auto simp: w')
    ultimately consider "u = a" "v = a" | "u = a" "v \<in> set (agents w)" | "u \<in> set (agents w)" "v = a"
      | "u \<in> set (agents w)" "v \<in> set (agents w)" by blast
    then show "a_id u = a_id v"
    proof cases
      case 1 then show ?thesis by simp
    next
      case 2 with free [of v] h show ?thesis by simp
    next
      case 3 with free [of u] h show ?thesis by simp
    next
      case 4 with so h show ?thesis unfolding singleOccupancy_def by blast
    qed
  qed
  with u l show ?thesis by (simp add: engineInv_def)
qed

lemma engineInv_register:
  assumes "roomy terr" "engineInv w"
  shows "engineInv (fst (register terr H now uuid rnd sessionId name secret w))"
proof (cases "getAgentByName w name")
  case None
  have len: "length (agents w) \<le> MAX_AGENTS" using assms(2) by (simp add: engineInv_def)
  note free = findSpawnPoint_free [OF assms(1) len, of rnd]
  have ins: "engineInv w'"
    if "\<not> MAX_AGENTS \<le> getAgentCount w" "insertAgent a w = Inr w'"
       "a_x a = fst (findSpawnPoint terr rnd w)" "a_y a = snd (findSpawnPoint terr rnd w)" for a w'
    using assms(2) _ _ that(2)
    by (rule engineInv_insertAgent) (use that free in \<open>simp_all add: getAgentCount_def\<close>)
  from None show ?thesis
    apply (simp add: register_def Let_def split_def assms(2) split: option.split sum.split)
    apply (intro conjI impI allI)
    apply (erule (1) ins; simp)+
    done
next
  case (Some byName)
  note bn = getAgentByName_SomeD [OF Some]
  have one: "engineInv (updateAgent a' w)" if "samePlace a' byName" for a'
    by (rule engineInv_one [OF assms(2) refl conjunct1 [OF bn] that])
  from Some show ?thesis
    apply (simp add: register_def Let_def split_def assms(2) split: option.split)
    apply (intro conjI impI allI; rule one; simp add: samePlace_def)
    done
qed

lemma engineInv_disconnectSession:
  assumes "engineInv w"
  shows "engineInv (disconnectSession now sessionId w)"
proof (cases "getAgentBySession w sessionId")
  case None
  with assms show ?thesis by (simp add: disconnectSession_def)
next
  case (Some agent)
  have "engineInv (updateAgent (agent\<lparr>a_session_id := None\<rparr>) w)"
    by (rule engineInv_one [OF assms refl getAgentBySession_SomeD [OF Some]])
       (simp add: samePlace_def)
  with Some show ?thesis by (simp add: disconnectSession_def Let_def)
qed

lemma engineInv_reconnectAgent:
  assumes "engineInv w"
  shows "engineInv (fst (reconnectAgent H now sessionId agentName secret w))"
proof (cases "getAgentByName w agentName")
  case None
  with assms show ?thesis by (simp add: reconnectAgent_def)
next
  case (Some agent)
  note bn = getAgentByName_SomeD [OF Some]
  have "engineInv (updateAgent (agent\<lparr>a_session_id := Some sessionId, a_last_action_at := now\<rparr>) w)"
    by (rule engineInv_one [OF assms refl conjunct1 [OF bn]]) (simp add: samePlace_def)
  with Some assms show ?thesis by (simp add: reconnectAgent_def Let_def)
qed

lemma other_rows_updateAgent:
  "r \<in> set (agents w) \<Longrightarrow> a_id r \<noteq> a_id a \<Longrightarrow> r \<in> set (agents (updateAgent a w))"
  by (force simp: updateAgent_def updateRow_other image_iff)

lemma row_updateAgent:
  "r \<in> set (agents w) \<Longrightarrow> updateRow a r \<in> set (agents (updateAgent a w))"
  by (simp add: updateAgent_def)

lemma engineInv_respawnStep:
  assumes "roomy terr" "engineInv w" "agent \<in> set (agents w)"
  shows "engineInv (respawnStep terr now rnd agent w)"
proof (cases "\<not> a_alive agent \<and> respawnDue now (a_respawn_at agent)")
  case True
  have len: "length (agents w) \<le> MAX_AGENTS" using assms(2) by (simp add: engineInv_def)
  let ?a = "agent\<lparr>a_alive := True, a_hp := a_max_hp agent, a_x := fst (findSpawnPoint terr rnd w),
                    a_y := snd (findSpawnPoint terr rnd w), a_respawn_at := None\<rparr>"
  have "getAgentAt w (a_x ?a) (a_y ?a) = None"
    using findSpawnPoint_free [OF assms(1) len, of rnd] by simp
  from engineInv_free_cell [OF assms(2) this] True show ?thesis
    by (simp add: respawnStep_def Let_def split_def)
next
  case False
  have "engineInv (updateAgent (agent\<lparr>a_hp := h\<rparr>) w)" for h
    by (rule engineInv_one [OF assms(2) refl assms(3)]) (simp add: samePlace_def)
  with False assms(2) show ?thesis
    by (auto simp add: respawnStep_def Let_def)
qed

lemma others_respawnStep:
  assumes "r \<in> set (agents w)" "a_id r \<noteq> a_id agent"
  shows "r \<in> set (agents (respawnStep terr now rnd agent w))"
proof -
  have k: "r \<in> set (agents (updateAgent a w0))" if "r \<in> set (agents w0)" "a_id a = a_id agent" for a w0
    using that assms(2) by (intro other_rows_updateAgent) simp_all
  show ?thesis
    by (simp add: respawnStep_def Let_def split_def k assms(1))
qed

lemma engineInv_tickRespawnsLoop:
  "roomy terr \<Longrightarrow> engineInv w \<Longrightarrow> set xs \<subseteq> set (agents w) \<Longrightarrow> distinct (map a_id xs) \<Longrightarrow>
     engineInv (tickRespawnsLoop terr now rnds k xs w)"
proof (induction xs arbitrary: k w)
  case Nil
  then show ?case by simp
next
  case (Cons x xs)
  let ?w1 = "respawnStep terr now (rnds k) x w"
  have 1: "engineInv ?w1"
    using Cons.prems by (intro engineInv_respawnStep) simp_all
  have 2: "set xs \<subseteq> set (agents ?w1)"
  proof
    fix r assume r: "r \<in> set xs"
    with Cons.prems(3,4) have "r \<in> set (agents w)" "a_id r \<noteq> a_id x" by (auto simp: image_iff)
    then show "r \<in> set (agents ?w1)" by (rule others_respawnStep)
  qed
  have 3: "distinct (map a_id xs)" using Cons.prems(4) by simp
  from Cons.IH [OF Cons.prems(1) 1 2 3] show ?case by simp
qed

lemma engineInv_tickRespawns:
  assumes "roomy terr" "engineInv w"
  shows "engineInv (tickRespawns terr now rnds w)"
  unfolding tickRespawns_def getAllAgents_def
  using assms by (intro engineInv_tickRespawnsLoop) (simp_all add: engineInv_def uniqueIds_def)

lemma agents_spawnOneResource:
  "spawnOneResource terr now sr w = Inr (w', b) \<Longrightarrow> agents w' = agents w"
  by (auto simp: spawnOneResource_def Let_def insertResource_def
           split: option.splits prod.splits sum.splits if_splits)

lemma agents_spawnLoop: "agents (fst (spawnLoop terr now srs i n w)) = agents w"
proof (induction n arbitrary: i w)
  case 0
  then show ?case by simp
next
  case (Suc n)
  show ?case
  proof (cases "spawnOneResource terr now (srs i) w")
    case (Inl e)
    then show ?thesis by simp
  next
    case (Inr p)
    obtain w' b where p: "p = (w', b)" by (cases p)
    from agents_spawnOneResource [OF Inr [unfolded p]] Suc.IH [of "Suc i" w'] Inr p
    show ?thesis by (simp add: split_def)
  qed
qed

lemma agents_tickResources: "agents (fst (tickResources terr now srs w)) = agents w"
  by (simp add: tickResources_def Let_def agents_spawnLoop)

lemma singleOccupancy_map:
  assumes "singleOccupancy w" "agents w' = map f (agents w)"
      and "\<And>r. a_id (f r) = a_id r \<and> a_x (f r) = a_x r \<and> a_y (f r) = a_y r \<and> a_alive (f r) = a_alive r"
  shows "singleOccupancy w'"
  unfolding singleOccupancy_def
proof (intro ballI impI)
  fix u v
  assume u: "u \<in> set (agents w')" and v: "v \<in> set (agents w')"
    and h: "a_alive u \<and> a_alive v \<and> a_x u = a_x v \<and> a_y u = a_y v"
  from u obtain r1 where r1: "r1 \<in> set (agents w)" "u = f r1" unfolding assms(2) by auto
  from v obtain r2 where r2: "r2 \<in> set (agents w)" "v = f r2" unfolding assms(2) by auto
  from h have "a_alive r1 \<and> a_alive r2 \<and> a_x r1 = a_x r2 \<and> a_y r1 = a_y r2"
    by (simp add: r1 r2 assms(3))
  with assms(1) r1(1) r2(1) have "a_id r1 = a_id r2" unfolding singleOccupancy_def by blast
  then show "a_id u = a_id v" by (simp add: r1 r2 assms(3))
qed

lemma engineInv_tickInactivity:
  assumes "engineInv w"
  shows "engineInv (tickInactivity now w)"
proof -
  have d: "distinct (map a_id (agents w))" using assms by (simp add: engineInv_def uniqueIds_def)
  let ?f = "\<lambda>r. if evicted now r then r\<lparr>a_session_id := None\<rparr> else r"
  have a: "agents (tickInactivity now w) = map ?f (agents w)"
    by (rule tickInactivity_effect(1) [OF d])
  have m: "map a_id (map ?f xs) = map a_id xs" for xs by (induction xs) simp_all
  have "uniqueIds (tickInactivity now w)"
    using d unfolding uniqueIds_def a m .
  moreover have "length (agents (tickInactivity now w)) \<le> MAX_AGENTS"
    using assms by (simp add: a engineInv_def)
  moreover have "singleOccupancy w" using assms by (simp add: engineInv_def)
  then have "singleOccupancy (tickInactivity now w)"
    using a by (rule singleOccupancy_map) simp
  ultimately show ?thesis by (simp add: engineInv_def)
qed

lemma engineInv_tick:
  assumes "roomy terr" "engineInv w"
  shows "engineInv (tick terr now rnds srs w)"
proof -
  let ?w1 = "tickRespawns terr now rnds w"
  have 1: "engineInv ?w1" using assms by (rule engineInv_tickRespawns)
  have 2: "engineInv (fst (tickResources terr now srs ?w1))"
    using 1 engineInv_agents_eq [OF agents_tickResources [of terr now srs ?w1]] by simp
  from 2 engineInv_tickInactivity [OF 2] show ?thesis
    by (simp add: tick_def Let_def split_def)
qed

lemma engineInv_exec:
  assumes "roomy terr" "engineInv w"
  shows "engineInv (exec terr H c w)"
  using assms
  by (cases c)
     (simp_all add: engineInv_register engineInv_move engineInv_attack engineInv_gather
        engineInv_communicate engineInv_levelUpSkill engineInv_useSkill engineInv_tick
        engineInv_disconnectSession engineInv_reconnectAgent)

lemma engineInv_run:
  "roomy terr \<Longrightarrow> engineInv w \<Longrightarrow> engineInv (run terr H cmds w)"
  unfolding run_def by (induction cmds arbitrary: w) (simp_all add: engineInv_exec)

lemma engineInv_emptyWorld: "engineInv emptyWorld"
  by (simp add: engineInv_def uniqueIds_def singleOccupancy_def emptyWorld_def MAX_AGENTS_def)

lemma engineInv_occupants:
  assumes "engineInv w"
  shows "length (occupants w x y) \<le> 1"
proof (rule ccontr)
  assume "\<not> length (occupants w x y) \<le> 1"
  then obtain u v rest where o: "occupants w x y = u # v # rest"
    by (cases "occupants w x y"; cases "tl (occupants w x y)") auto
  have d: "distinct (map a_id (occupants w x y))"
    using assms unfolding occupants_def engineInv_def uniqueIds_def by (rule_tac distinct_map_filter) simp
  have "u \<in> set (occupants w x y)" "v \<in> set (occupants w x y)" by (simp_all add: o)
  then have "u \<in> set (agents w)" "v \<in> set (agents w)"
    "a_alive u \<and> a_alive v \<and> a_x u = a_x v \<and> a_y u = a_y v"
    by (auto simp: occupants_def)
  with assms have "a_id u = a_id v" unfolding engineInv_def singleOccupancy_def by blast
  with d show False by (simp add: o)
qed

end
